theory Spec2Isabelle
  imports Complex_Main "HOL-Library.Word" "HOL-Library.AList"
begin

section \<open>Short-code generation (utils: generateShortCode)\<close>

text \<open>
  The alphabet of \<^verbatim>\<open>generateShortCode\<close>: upper case without I and O, lower case
  without l, digits without 0 and 1.
\<close>

definition characters :: string where
  "characters = ''ABCDEFGHJKLMNPQRSTUVWXYZabcdefghijkmnopqrstuvwxyz23456789''"

text \<open>
  JavaScript's \<^verbatim>\<open>String.prototype.charAt\<close>: the one-character string at the index,
  the empty string out of range.
\<close>

definition charAt :: "string \<Rightarrow> nat \<Rightarrow> string" where
  "charAt s i = (if i < length s then [s ! i] else [])"

text \<open>
  \<^verbatim>\<open>crypto.getRandomValues(new Uint8Array(length))\<close>: the array is filled with
  the next \<open>length\<close> bytes of the platform's entropy source. The source is an input
  of the model: \<open>entropy i\<close> is the byte delivered at index \<open>i\<close>.
\<close>

definition getRandomValues :: "(nat \<Rightarrow> 8 word) \<Rightarrow> nat \<Rightarrow> 8 word list" where
  "getRandomValues entropy len = map entropy [0..<len]"

text \<open>
  The loop \<^verbatim>\<open>for (let i = 0; i < length; i++) result += characters.charAt(randomValues[i] % characters.length)\<close>.
\<close>

function generateShortCode_loop :: "8 word list \<Rightarrow> nat \<Rightarrow> nat \<Rightarrow> string \<Rightarrow> string" where
  "generateShortCode_loop randomValues len i result =
     (if i < len
      then generateShortCode_loop randomValues len (i + 1)
             (result @ charAt characters (unat (randomValues ! i) mod length characters))
      else result)"
  by pat_completeness auto
termination
  by (relation "measure (\<lambda>(randomValues, len, i, result). len - i)") auto

declare generateShortCode_loop.simps [simp del]

definition generateShortCode :: "nat \<Rightarrow> (nat \<Rightarrow> 8 word) \<Rightarrow> string" where
  "generateShortCode len entropy =
     generateShortCode_loop (getRandomValues entropy len) len 0 []"

text \<open>The default value of the parameter \<^verbatim>\<open>length\<close>.\<close>

definition default_length :: nat where
  "default_length = 4"

text \<open>
  The character a byte selects, and the bytes (of all 256) that select a given character:
  with a uniformly distributed byte, a character's probability is the number of its
  bytes divided by 256.
\<close>

definition byte_char :: "8 word \<Rightarrow> string" where
  "byte_char b = charAt characters (unat b mod length characters)"

definition all_bytes :: "8 word list" where
  "all_bytes = map of_nat [0..<256]"

definition bytes_selecting :: "char \<Rightarrow> 8 word list" where
  "bytes_selecting ch = filter (\<lambda>b. byte_char b = [ch]) all_bytes"

section \<open>The worker's environment\<close>

text \<open>
  JSON values, for the bodies of the responses (\<^verbatim>\<open>c.json(...)\<close>). Object members
  keep the order in which the source writes them.
\<close>

datatype json =
    JBool bool
  | JNum rat
  | JStr string
  | JArr "json list"
  | JObj "(string \<times> json) list"

datatype response =
    JsonResponse nat json
  | NotFoundResponse
  | RedirectResponse string

fun status :: "response \<Rightarrow> nat" where
  "status (JsonResponse code body) = code"
| "status NotFoundResponse = 404"
| "status (RedirectResponse url) = 302"

text \<open>The types \<^verbatim>\<open>ShortenRequest\<close> and \<^verbatim>\<open>KVData\<close> of type.ts.\<close>

record ShortenRequest =
  req_originalUrl :: string
  req_shortCode :: "string option"
  req_expiration :: "int option"
  req_description :: "string option"

record KVData =
  originalUrl :: string
  expiration :: "int option"
  description :: "string option"
  urlId :: string

text \<open>
  The data point handed to \<^verbatim>\<open>URL_CLICK_TRACKING.writeDataPoint\<close>, and the properties
  \<^verbatim>\<open>c.req.raw.cf\<close> that the platform attaches to a request (absent outside the
  platform's edge).
\<close>

record data_point =
  blobs :: "string list"
  indexes :: "string list"

record cf_properties =
  city :: string
  country :: string
  continent :: string
  region :: string
  regionCode :: string
  timezone :: string
  metroCode :: string
  longitude :: string
  latitude :: string
  postalCode :: string

datatype log_line = Log string | Error string

text \<open>
  The state outside a request: the KV namespace \<^verbatim>\<open>URL_SHORTENER\<close> (key, value and the
  \<^verbatim>\<open>expirationTtl\<close> the value was put with), the data points written to the dataset
  \<^verbatim>\<open>URL_CLICK_TRACKING\<close>, the number of aggregate queries sent to the analytics
  engine so far, and the console (\<^verbatim>\<open>console.log\<close> and \<^verbatim>\<open>console.error\<close> append
  their first argument). Values are strings, as in the store.
  Expiry of a key by its TTL and the delay of writes are not part of the model: a
  read sees the last write.
\<close>

record world =
  URL_SHORTENER :: "(string \<times> string \<times> nat option) list"
  URL_CLICK_TRACKING :: "data_point list"
  analytics_queries :: nat
  console :: "log_line list"

datatype kv_op = KvGet string | KvPut string | KvDelete string | KvList string

datatype exn = KvFailure kv_op | SyntaxError | FetchFailure

text \<open>
  What a request brings with it and what the runtime decides during the request:
  which store calls throw (no handler makes the same call on the same key twice in
  a request, so a predicate on the calls covers every sequence of outcomes), the clock, the results of the calls of \<^verbatim>\<open>nanoid()\<close>
  (the one in \<^verbatim>\<open>acquireLock\<close> and the one for a new urlId), the entropy source,
  the origin of the request's URL, the request's \<^verbatim>\<open>cf\<close> properties, the
  runtime's \<^verbatim>\<open>JSON.stringify\<close> and \<^verbatim>\<open>JSON.parse\<close> on \<^verbatim>\<open>KVData\<close>, what the
  analytics engine answers to an aggregate query (the total of clicks, nothing, or
  a failure), and the runtime's floating-point quotient of two numbers rounded to
  one decimal.
\<close>

record ctx =
  kv_throws :: "kv_op \<Rightarrow> bool"
  Date_now :: int
  nanoid_lock :: string
  nanoid_urlId :: string
  entropy :: "nat \<Rightarrow> 8 word"
  req_origin :: string
  req_cf :: "cf_properties option"
  JSON_stringify :: "KVData \<Rightarrow> string"
  JSON_parse :: "string \<Rightarrow> exn + KVData"
  analytics_answer :: "exn + int option"
  quotient_toFixed1 :: "int \<Rightarrow> nat \<Rightarrow> rat"

definition console_log :: "string \<Rightarrow> world \<Rightarrow> world" where
  "console_log msg w = w\<lparr>console := console w @ [Log msg]\<rparr>"

definition console_error :: "string \<Rightarrow> world \<Rightarrow> world" where
  "console_error msg w = w\<lparr>console := console w @ [Error msg]\<rparr>"

text \<open>
  The four calls on the KV namespace. Each throws when the runtime says so, and then
  changes nothing.
\<close>

definition kv_lookup :: "world \<Rightarrow> string \<Rightarrow> string option" where
  "kv_lookup w key = map_option fst (map_of (URL_SHORTENER w) key)"

definition kv_ttl :: "world \<Rightarrow> string \<Rightarrow> nat option option" where
  "kv_ttl w key = map_option snd (map_of (URL_SHORTENER w) key)"

definition kv_get :: "ctx \<Rightarrow> string \<Rightarrow> world \<Rightarrow> exn + string option" where
  "kv_get c key w =
     (if kv_throws c (KvGet key) then Inl (KvFailure (KvGet key))
      else Inr (kv_lookup w key))"

definition kv_put :: "ctx \<Rightarrow> string \<Rightarrow> string \<Rightarrow> nat option \<Rightarrow> world \<Rightarrow> exn + world" where
  "kv_put c key v expirationTtl w =
     (if kv_throws c (KvPut key) then Inl (KvFailure (KvPut key))
      else Inr (w\<lparr>URL_SHORTENER := AList.update key (v, expirationTtl) (URL_SHORTENER w)\<rparr>))"

definition kv_delete :: "ctx \<Rightarrow> string \<Rightarrow> world \<Rightarrow> exn + world" where
  "kv_delete c key w =
     (if kv_throws c (KvDelete key) then Inl (KvFailure (KvDelete key))
      else Inr (w\<lparr>URL_SHORTENER := AList.delete key (URL_SHORTENER w)\<rparr>))"

definition startsWith :: "string \<Rightarrow> string \<Rightarrow> bool" where
  "startsWith s p = (take (length p) s = p)"

text \<open>
  \<^verbatim>\<open>list({ prefix })\<close> returns at most 1000 keys in one call, and the handlers follow
  no cursor. The handlers modelled here use the number of the keys only, so the
  order of the keys is left as the store has them.
\<close>

definition kv_list :: "ctx \<Rightarrow> string \<Rightarrow> world \<Rightarrow> exn + string list" where
  "kv_list c pre w =
     (if kv_throws c (KvList pre) then Inl (KvFailure (KvList pre))
      else Inr (take 1000 (filter (\<lambda>key. startsWith key pre) (map fst (URL_SHORTENER w)))))"

section \<open>The advisory lock (utils: acquireLock, releaseLock)\<close>

definition acquireLock :: "ctx \<Rightarrow> string \<Rightarrow> world \<Rightarrow> string option \<times> world" where
  "acquireLock c url w =
     (let lockId = nanoid_lock c
      in case kv_put c (''lock:'' @ url) lockId (Some 60) w of
           Inr w' \<Rightarrow> (Some lockId, w')
         | Inl error \<Rightarrow> (None, console_error ''Error acquiring lock:'' w))"

text \<open>The body of the \<^verbatim>\<open>try\<close> block of \<^verbatim>\<open>releaseLock\<close>, then the function.\<close>

definition releaseLock_try :: "ctx \<Rightarrow> string \<Rightarrow> string \<Rightarrow> world \<Rightarrow> (exn + unit) \<times> world" where
  "releaseLock_try c url lockId w =
     (case kv_get c (''lock:'' @ url) w of
        Inl error \<Rightarrow> (Inl error, w)
      | Inr currentLockId \<Rightarrow>
          if currentLockId = Some lockId
          then (case kv_delete c (''lock:'' @ url) w of
                  Inl error \<Rightarrow> (Inl error, w)
                | Inr w' \<Rightarrow> (Inr (), w'))
          else (Inr (), w))"

definition releaseLock :: "ctx \<Rightarrow> string \<Rightarrow> string \<Rightarrow> world \<Rightarrow> (exn + unit) \<times> world" where
  "releaseLock c url lockId w =
     (case releaseLock_try c url lockId w of
        (Inl error, w') \<Rightarrow> (Inr (), console_error ''Error releasing lock:'' w')
      | (Inr u, w') \<Rightarrow> (Inr u, w'))"

section \<open>Click events (utils: logAnalytics)\<close>

definition logAnalytics :: "ctx \<Rightarrow> string \<Rightarrow> string \<Rightarrow> world \<Rightarrow> world" where
  "logAnalytics c shortCode urlId' w =
     (let w1 = console_log (''Analytics logged for shortCode: '' @ shortCode @ '', urlId: '' @ urlId') w
      in w1\<lparr>URL_CLICK_TRACKING := URL_CLICK_TRACKING w1 @
                [\<lparr>blobs = [urlId', shortCode], indexes = [urlId']\<rparr>]\<rparr>)"

text \<open>
  Modelled from the spec: \<^verbatim>\<open>fetchAnalyticsData\<close> is imported from utils by the
  handlers but its definition is not among the sources. The spec's words: the
  overview uses "a separate aggregate click-count query" to the analytics sink. The
  model sends one query and returns the engine's answer.
\<close>

definition fetchAnalyticsData :: "ctx \<Rightarrow> world \<Rightarrow> (exn + int option) \<times> world" where
  "fetchAnalyticsData c w = (analytics_answer c, w\<lparr>analytics_queries := analytics_queries w + 1\<rparr>)"

section \<open>POST /api/shorten\<close>

text \<open>
  The first steps after the existence check: the urlId of the destination is read
  from the store, and a new one is made and stored when the read value is falsy
  (\<^verbatim>\<open>if (!urlId)\<close>: absent or the empty string). The result is the urlId and the flag
  \<^verbatim>\<open>isNewUrlId\<close>.
\<close>

definition resolve_urlId :: "ctx \<Rightarrow> string \<Rightarrow> world \<Rightarrow> (exn + string \<times> bool) \<times> world" where
  "resolve_urlId c originalUrl' w =
     (case kv_get c (''urlId:'' @ originalUrl') w of
        Inl error \<Rightarrow> (Inl error, w)
      | Inr stored \<Rightarrow>
          if stored = None \<or> stored = Some []
          then (case kv_put c (''urlId:'' @ originalUrl') (nanoid_urlId c) None w of
                  Inl error \<Rightarrow> (Inl error, w)
                | Inr w' \<Rightarrow> (Inr (nanoid_urlId c, True), w'))
          else (Inr (the stored, False), w))"

text \<open>The record that is stored, and the two responses of the \<^verbatim>\<open>try\<close> block.\<close>

definition make_kvData :: "string \<Rightarrow> int \<Rightarrow> string \<Rightarrow> string \<Rightarrow> KVData" where
  "make_kvData originalUrl' expiration' description' urlId' =
     \<lparr>originalUrl = originalUrl',
      expiration = (if expiration' \<noteq> - 1 then Some expiration' else None),
      description = Some description',
      urlId = urlId'\<rparr>"

definition conflict_response :: response where
  "conflict_response =
     JsonResponse 400
       (JObj [(''success'', JBool False), (''message'', JStr ''Short code already exists'')])"

definition created_response :: "string \<Rightarrow> string \<Rightarrow> response" where
  "created_response shortUrl originalUrl' =
     JsonResponse 201
       (JObj [(''shortUrl'', JStr shortUrl), (''originalUrl'', JStr originalUrl'),
              (''success'', JBool True)])"

text \<open>The body of the handler's \<^verbatim>\<open>try\<close> block.\<close>

definition shorten_try ::
  "ctx \<Rightarrow> string \<Rightarrow> string \<Rightarrow> int \<Rightarrow> string \<Rightarrow> world \<Rightarrow> (exn + response) \<times> world" where
  "shorten_try c originalUrl' shortCode expiration' description' w =
     (case kv_get c (''link:'' @ shortCode) w of
        Inl error \<Rightarrow> (Inl error, w)
      | Inr existingUrl \<Rightarrow>
          if existingUrl \<noteq> None \<and> existingUrl \<noteq> Some []
          then (Inr conflict_response,
                console_log ''/api/shorten failed as short Code exists:'' w)
          else
            (case resolve_urlId c originalUrl' w of
               (Inl error, w1) \<Rightarrow> (Inl error, w1)
             | (Inr (urlId', isNewUrlId), w1) \<Rightarrow>
                 (let w2 = console_log (''/api/shorten ''
                              @ (if isNewUrlId then ''created'' else ''retrieved'')
                              @ '' urlId for url:'') w1;
                      w3 = console_log ''/api/shorten create pair:'' w2;
                      kvData = make_kvData originalUrl' expiration' description' urlId';
                      shortUrl = req_origin c @ ''/'' @ shortCode
                  in case kv_put c (''link:'' @ shortCode) (JSON_stringify c kvData) None w3 of
                       Inl error \<Rightarrow> (Inl error, w3)
                     | Inr w4 \<Rightarrow> (Inr (created_response shortUrl originalUrl'), w4))))"

text \<open>
  The responses outside the \<^verbatim>\<open>try\<close> block, the defaults of the destructured body
  (\<^verbatim>\<open>shortCode = generateShortCode(), expiration = -1, description = ""\<close>), then the
  handler: the lock, the \<^verbatim>\<open>try\<close> block with its \<^verbatim>\<open>catch\<close>, and the \<^verbatim>\<open>finally\<close>
  that releases the lock.
\<close>

definition busy_response :: response where
  "busy_response =
     JsonResponse 429
       (JObj [(''success'', JBool False), (''message'', JStr ''Server is busy, please try again'')])"

definition store_failure_response :: response where
  "store_failure_response =
     JsonResponse 500
       (JObj [(''success'', JBool False), (''message'', JStr ''Failed to store shortened URL'')])"

definition shortCode_of :: "ctx \<Rightarrow> ShortenRequest \<Rightarrow> string" where
  "shortCode_of c body =
     (case req_shortCode body of
        Some s \<Rightarrow> s
      | None \<Rightarrow> generateShortCode default_length (entropy c))"

definition expiration_of :: "ShortenRequest \<Rightarrow> int" where
  "expiration_of body = (case req_expiration body of Some e \<Rightarrow> e | None \<Rightarrow> - 1)"

definition description_of :: "ShortenRequest \<Rightarrow> string" where
  "description_of body = (case req_description body of Some d \<Rightarrow> d | None \<Rightarrow> [])"

definition shorten :: "ctx \<Rightarrow> ShortenRequest \<Rightarrow> world \<Rightarrow> (exn + response) \<times> world" where
  "shorten c body w =
     (let originalUrl' = req_originalUrl body;
          shortCode = shortCode_of c body;
          expiration' = expiration_of body;
          description' = description_of body
      in case acquireLock c originalUrl' w of
           (lockId, w1) \<Rightarrow>
             if lockId = None \<or> lockId = Some []
             then (Inr busy_response, w1)
             else
               (case (case shorten_try c originalUrl' shortCode expiration' description' w1 of
                        (Inr r, w2) \<Rightarrow> (r, w2)
                      | (Inl error, w2) \<Rightarrow>
                          (store_failure_response, console_error ''Error storing URL in KV:'' w2)) of
                  (r, w3) \<Rightarrow>
                    (case releaseLock c originalUrl' (the lockId) w3 of
                       (Inl error, w4) \<Rightarrow> (Inl error, w4)
                     | (Inr u, w4) \<Rightarrow> (Inr r, w4))))"

section \<open>GET /:shortCode\<close>

text \<open>
  The handler has no \<^verbatim>\<open>try\<close>: an exception of a store call or of \<^verbatim>\<open>JSON.parse\<close>
  leaves the handler.
\<close>

definition redirect :: "ctx \<Rightarrow> string \<Rightarrow> world \<Rightarrow> (exn + response) \<times> world" where
  "redirect c shortCode w =
     (case kv_get c (''link:'' @ shortCode) w of
        Inl error \<Rightarrow> (Inl error, w)
      | Inr urlData \<Rightarrow>
          if urlData = None \<or> urlData = Some []
          then (Inr NotFoundResponse, w)
          else
            (case JSON_parse c (the urlData) of
               Inl error \<Rightarrow> (Inl error, w)
             | Inr kvData \<Rightarrow>
                 if (case expiration kvData of
                       None \<Rightarrow> False
                     | Some e \<Rightarrow> e \<noteq> 0 \<and> Date_now c > e)
                 then (case kv_delete c (''link:'' @ shortCode) w of
                         Inl error \<Rightarrow> (Inl error, w)
                       | Inr w' \<Rightarrow> (Inr NotFoundResponse, w'))
                 else (Inr (RedirectResponse (originalUrl kvData)),
                       logAnalytics c shortCode (urlId kvData) w)))"

section \<open>GET /api/analytics/overview\<close>

text \<open>
  The average is \<^verbatim>\<open>parseFloat((totalClicks / totalLinks).toFixed(1))\<close>, a division
  and a rounding on floating-point numbers: the context's \<open>quotient_toFixed1\<close>.
\<close>

definition overview_try :: "ctx \<Rightarrow> world \<Rightarrow> (exn + response) \<times> world" where
  "overview_try c w =
     (case kv_list c ''link:'' w of
        Inl error \<Rightarrow> (Inl error, w)
      | Inr keys \<Rightarrow>
          if length keys = 0
          then (Inr (JsonResponse 200
                       (JObj [(''success'', JBool True),
                              (''overview'', JObj [(''totalClicks'', JNum 0),
                                                   (''totalLinks'', JNum 0),
                                                   (''avgClicksPerLink'', JNum 0)]),
                              (''recentLinks'', JArr [])])),
                w)
          else
            (case fetchAnalyticsData c w of
               (Inl error, w1) \<Rightarrow> (Inl error, w1)
             | (Inr analyticsData, w1) \<Rightarrow>
                 (case analyticsData of
                    None \<Rightarrow>
                      (Inr (JsonResponse 500
                              (JObj [(''success'', JBool False),
                                     (''message'', JStr ''Failed to fetch analytics data'')])),
                       w1)
                  | Some totalClicks \<Rightarrow>
                      (let totalLinks = length keys;
                           avgClicksPerLink =
                             (if totalLinks \<noteq> 0 then quotient_toFixed1 c totalClicks totalLinks else 0)
                       in (Inr (JsonResponse 200
                                  (JObj [(''success'', JBool True),
                                         (''data'', JObj [(''totalClicks'', JNum (of_int totalClicks)),
                                                          (''totalLinks'', JNum (of_nat totalLinks)),
                                                          (''avgClicksPerLink'',
                                                           JNum avgClicksPerLink)])])),
                           w1)))))"

definition overview :: "ctx \<Rightarrow> world \<Rightarrow> response \<times> world" where
  "overview c w =
     (case overview_try c w of
        (Inr r, w') \<Rightarrow> (r, w')
      | (Inl error, w') \<Rightarrow>
          (JsonResponse 500
             (JObj [(''success'', JBool False),
                    (''message'', JStr ''Failed to fetch analytics data'')]),
           console_error ''Error fetching analytics overview:'' w'))"

section \<open>Sequences of requests\<close>

text \<open>
  The routes above, and the state after a sequence of requests, each with its own
  context. The administrative routes that clear the store are not among them.
\<close>

datatype request = Shorten ShortenRequest | Visit string | Overview

fun handle :: "ctx \<Rightarrow> request \<Rightarrow> world \<Rightarrow> world" where
  "handle c (Shorten body) w = snd (shorten c body w)"
| "handle c (Visit shortCode) w = snd (redirect c shortCode w)"
| "handle c Overview w = snd (overview c w)"

fun run :: "(ctx \<times> request) list \<Rightarrow> world \<Rightarrow> world" where
  "run [] w = w"
| "run ((c, r) # rs) w = run rs (handle c r w)"



section \<open>The values in the store\<close>

text \<open>
  Every value the handlers put into the store is the result of \<^verbatim>\<open>nanoid()\<close> or of
  \<^verbatim>\<open>JSON.stringify\<close> on an object. Neither is ever the empty string in the runtime;
  in the model this is a property of the context. The invariant of the store that
  follows: no key holds the empty string. The handlers test what they read for
  truthiness (\<^verbatim>\<open>if (existingUrl)\<close>, \<^verbatim>\<open>if (!urlId)\<close>, \<^verbatim>\<open>if (!urlData)\<close>), and under
  the invariant a value is truthy exactly when the key is present.
\<close>

definition values_nonempty :: "world \<Rightarrow> bool" where
  "values_nonempty w = list_all (\<lambda>(key, v, ttl). v \<noteq> []) (URL_SHORTENER w)"

definition runtime_ok :: "ctx \<Rightarrow> bool" where
  "runtime_ok c \<longleftrightarrow> nanoid_lock c \<noteq> [] \<and> nanoid_urlId c \<noteq> [] \<and> (\<forall>d. JSON_stringify c d \<noteq> [])"

section \<open>Concrete inputs\<close>

text \<open>
  A context in which no store call throws, with a JSON codec that knows the texts of
  the records used below, the \<^verbatim>\<open>cf\<close> properties of a request, and an empty world.
\<close>

definition example_record :: "int option \<Rightarrow> KVData" where
  "example_record e =
     \<lparr>originalUrl = ''https://example.com'', expiration = e, description = Some [], urlId = ''id-1''\<rparr>"

definition example_texts :: "(string \<times> KVData) list" where
  "example_texts =
     [(''{\"originalUrl\":\"https://example.com\",\"description\":\"\",\"urlId\":\"id-1\"}'',
       example_record None),
      (''{\"originalUrl\":\"https://example.com\",\"description\":\"\",\"urlId\":\"id-1\",\"expiration\":0}'',
       example_record (Some 0)),
      (''{\"originalUrl\":\"https://example.com\",\"description\":\"\",\"urlId\":\"id-1\",\"expiration\":5000}'',
       example_record (Some 5000)),
      (''{\"originalUrl\":\"https://example.com\",\"description\":\"\",\"urlId\":\"id-1\",\"expiration\":600000}'',
       example_record (Some 600000))]"

definition example_stringify :: "KVData \<Rightarrow> string" where
  "example_stringify d =
     (case find (\<lambda>(s, r). r = d) example_texts of Some (s, r) \<Rightarrow> s | None \<Rightarrow> ''{}'')"

definition example_parse :: "string \<Rightarrow> exn + KVData" where
  "example_parse s = (case map_of example_texts s of Some r \<Rightarrow> Inr r | None \<Rightarrow> Inl SyntaxError)"

definition example_ctx :: "int \<Rightarrow> ctx" where
  "example_ctx t =
     \<lparr>kv_throws = (\<lambda>op. False), Date_now = t, nanoid_lock = ''lock-1'', nanoid_urlId = ''id-1'',
      entropy = (\<lambda>i. 0), req_origin = ''https://sho.rt'', req_cf = None,
      JSON_stringify = example_stringify, JSON_parse = example_parse,
      analytics_answer = Inr (Some 0), quotient_toFixed1 = (\<lambda>a b. 0)\<rparr>"

definition example_cf :: cf_properties where
  "example_cf =
     \<lparr>city = ''Zurich'', country = ''CH'', continent = ''EU'', region = ''Zurich'', regionCode = ''ZH'',
      timezone = ''Europe/Zurich'', metroCode = ''0'', longitude = ''8.55'', latitude = ''47.37'',
      postalCode = ''8001''\<rparr>"

definition example_request :: "int option \<Rightarrow> ShortenRequest" where
  "example_request e =
     \<lparr>req_originalUrl = ''https://example.com'', req_shortCode = Some ''abcd'',
      req_expiration = e, req_description = None\<rparr>"

definition empty_world :: world where
  "empty_world = \<lparr>URL_SHORTENER = [], URL_CLICK_TRACKING = [], analytics_queries = 0, console = []\<rparr>"

text \<open>
  The world after the example request has been served in the empty world, and a
  world in which the lock of the example destination is held.
\<close>

definition created_world :: "int option \<Rightarrow> world" where
  "created_world e =
     \<lparr>URL_SHORTENER =
        [(''urlId:https://example.com'', ''id-1'', None),
         (''link:abcd'', example_stringify (example_record e), None)],
      URL_CLICK_TRACKING = [], analytics_queries = 0,
      console = [Log ''/api/shorten created urlId for url:'', Log ''/api/shorten create pair:'']\<rparr>"

definition locked_world :: world where
  "locked_world =
     \<lparr>URL_SHORTENER = [(''lock:https://example.com'', ''lock-1'', Some 60)],
      URL_CLICK_TRACKING = [], analytics_queries = 0, console = []\<rparr>"

section \<open>Facts about the short-code generator\<close>

text \<open>
  The loop appends one character per byte, so the result is the list of the selected
  characters. A byte selects the character at its residue modulo 57, and the residues
  below 28 occur five times among the 256 byte values, the others four times.
\<close>

lemma length_characters: "length characters = 57"
  by (simp add: characters_def)

lemma distinct_characters: "distinct characters"
  by (simp add: characters_def)

lemma byte_char_eq: "byte_char b = [characters ! (unat b mod 57)]"
  by (simp add: byte_char_def charAt_def length_characters)

lemma generateShortCode_loop_eq:
  "generateShortCode_loop rv len i res =
     res @ concat (map (\<lambda>j. charAt characters (unat (rv ! j) mod length characters)) [i..<len])"
proof (induction rv len i res rule: generateShortCode_loop.induct)
  case (1 rv len i res)
  show ?case
  proof (cases "i < len")
    case True
    then show ?thesis
      using 1 by (subst generateShortCode_loop.simps) (simp add: upt_conv_Cons)
  next
    case False
    then show ?thesis
      by (subst generateShortCode_loop.simps) simp
  qed
qed

lemma generateShortCode_eq:
  "generateShortCode len e = map (\<lambda>j. characters ! (unat (e j) mod 57)) [0..<len]"
proof -
  have h: "map (\<lambda>j. charAt characters (unat (map e [0..<len] ! j) mod length characters)) [0..<len]
        = map (\<lambda>j. byte_char (e j)) [0..<len]"
    by (rule map_cong) (simp_all add: byte_char_def)
  have "generateShortCode len e = concat (map (\<lambda>j. byte_char (e j)) [0..<len])"
    by (simp only: generateShortCode_def generateShortCode_loop_eq getRandomValues_def h append_Nil)
  also have "\<dots> = map (\<lambda>j. characters ! (unat (e j) mod 57)) [0..<len]"
    by (induction len) (simp_all add: byte_char_eq)
  finally show ?thesis .
qed

lemma residue_cases:
  fixes n k :: nat
  assumes "k < 57"
  shows "n mod 57 = k \<and> n < 256 \<longleftrightarrow>
         n = k \<or> n = k + 57 \<or> n = k + 114 \<or> n = k + 171 \<or> (n = k + 228 \<and> k < 28)"
proof
  assume h: "n mod 57 = k \<and> n < 256"
  define q where "q = n div 57"
  have "57 * (n div 57) + n mod 57 = n"
    by (rule mult_div_mod_eq)
  then have n: "n = 57 * q + k"
    using h by (simp add: q_def)
  have "q < 5"
    using h by (simp add: q_def less_mult_imp_div_less)
  then have "q = 0 \<or> q = 1 \<or> q = 2 \<or> q = 3 \<or> q = 4"
    by arith
  then show "n = k \<or> n = k + 57 \<or> n = k + 114 \<or> n = k + 171 \<or> (n = k + 228 \<and> k < 28)"
    using n h by auto
next
  assume "n = k \<or> n = k + 57 \<or> n = k + 114 \<or> n = k + 171 \<or> (n = k + 228 \<and> k < 28)"
  moreover have "(k + 57 * j) mod 57 = k" for j
    using assms by simp
  from this [of 1] this [of 2] this [of 3] this [of 4]
  have "(k + 57) mod 57 = k" "(k + 114) mod 57 = k" "(k + 171) mod 57 = k" "(k + 228) mod 57 = k"
    by simp_all
  ultimately show "n mod 57 = k \<and> n < 256"
    using assms by (elim disjE conjE) simp_all
qed

lemma residues_below_256:
  assumes "k < 57"
  shows "{n. n mod 57 = k} \<inter> {0..<256::nat}
         = {k, k + 57, k + 114, k + 171} \<union> (if k < 28 then {k + 228} else {})"
proof -
  have "{n. n mod 57 = k} \<inter> {0..<256::nat} = {n. n mod 57 = k \<and> n < 256}"
    by auto
  also have "\<dots> = {n. n = k \<or> n = k + 57 \<or> n = k + 114 \<or> n = k + 171 \<or> (n = k + 228 \<and> k < 28)}"
    by (simp only: residue_cases [OF assms])
  also have "\<dots> = {k, k + 57, k + 114, k + 171} \<union> (if k < 28 then {k + 228} else {})"
    by auto
  finally show ?thesis .
qed

lemma count_residues:
  assumes "k < 57"
  shows "length (filter (\<lambda>n::nat. n mod 57 = k) [0..<256]) = (if k < 28 then 5 else 4)"
proof -
  have "length (filter (\<lambda>n::nat. n mod 57 = k) [0..<256]) = card ({n. n mod 57 = k} \<inter> {0..<256})"
    using distinct_length_filter [of "[0..<256]" "\<lambda>n::nat. n mod 57 = k"]
    by (simp only: distinct_upt set_upt)
  also have "\<dots> = (if k < 28 then 5 else 4)"
    by (simp add: residues_below_256 [OF assms])
  finally show ?thesis .
qed

lemma length_bytes_selecting:
  assumes "k < 57"
  shows "length (bytes_selecting (characters ! k)) = (if k < 28 then 5 else 4)"
proof -
  have sel: "byte_char b = [characters ! k] \<longleftrightarrow> unat b mod 57 = k" for b
    using assms distinct_characters
    by (simp add: byte_char_eq nth_eq_iff_index_eq length_characters)
  have "filter (\<lambda>b. byte_char b = [characters ! k]) (map of_nat [0..<256])
        = map of_nat (filter (\<lambda>n::nat. n mod 57 = k) [0..<256])"
    unfolding filter_map sel
    by (rule arg_cong [where f = "map of_nat"], rule filter_cong)
       (simp_all add: unat_of_nat del: upt_rec_numeral)
  then show ?thesis
    by (simp only: bytes_selecting_def all_bytes_def count_residues [OF assms] length_map)
qed

lemma bytes_selecting_counts:
  "map (\<lambda>k. length (bytes_selecting (characters ! k))) [0..<57] = replicate 28 5 @ replicate 29 4"
proof (rule nth_equalityI)
  show "length (map (\<lambda>k. length (bytes_selecting (characters ! k))) [0..<57])
        = length (replicate 28 (5::nat) @ replicate 29 4)"
    by (simp del: upt_rec_numeral)
next
  fix i
  assume "i < length (map (\<lambda>k. length (bytes_selecting (characters ! k))) [0..<57])"
  then have i: "i < 57" by (simp del: upt_rec_numeral)
  then show "map (\<lambda>k. length (bytes_selecting (characters ! k))) [0..<57] ! i
             = (replicate 28 5 @ replicate 29 4) ! i"
    by (simp add: length_bytes_selecting nth_append del: upt_Suc upt_rec_numeral)
qed

lemma first_last_character: "characters ! 0 = CHR ''A'' \<and> characters ! 56 = CHR ''9''"
  by (simp add: characters_def)

section \<open>Facts about the store and the lock\<close>

text \<open>
  Keys of different namespaces differ. \<^verbatim>\<open>releaseLock\<close> returns normally on every path
  and touches at most the key of the lock.
\<close>

lemma key_prefixes_differ:
  "''lock:'' @ a \<noteq> ''link:'' @ b" "''lock:'' @ a \<noteq> ''urlId:'' @ b"
  "''link:'' @ a \<noteq> ''lock:'' @ b" "''link:'' @ a \<noteq> ''urlId:'' @ b"
  "''urlId:'' @ a \<noteq> ''lock:'' @ b" "''urlId:'' @ a \<noteq> ''link:'' @ b"
  by simp_all

lemma kv_lookup_console [simp]:
  "kv_lookup (console_log m w) k = kv_lookup w k"
  "kv_lookup (console_error m w) k = kv_lookup w k"
  "URL_SHORTENER (console_log m w) = URL_SHORTENER w"
  "URL_SHORTENER (console_error m w) = URL_SHORTENER w"
  "URL_CLICK_TRACKING (console_log m w) = URL_CLICK_TRACKING w"
  "URL_CLICK_TRACKING (console_error m w) = URL_CLICK_TRACKING w"
  "analytics_queries (console_log m w) = analytics_queries w"
  "analytics_queries (console_error m w) = analytics_queries w"
  by (simp_all add: kv_lookup_def console_log_def console_error_def)

lemma releaseLock_returns: "fst (releaseLock c url lockId w) = Inr ()"
  by (simp add: releaseLock_def releaseLock_try_def split: sum.splits prod.splits)

lemma releaseLock_other_keys:
  assumes "key \<noteq> ''lock:'' @ url"
  shows "map_of (URL_SHORTENER (snd (releaseLock c url lockId w))) key = map_of (URL_SHORTENER w) key"
  using assms
  by (auto simp: releaseLock_def releaseLock_try_def kv_delete_def delete_conv'
           split: sum.splits prod.splits if_splits)

lemma releaseLock_mismatch:
  assumes "kv_lookup w (''lock:'' @ url) \<noteq> Some lockId"
  shows "URL_SHORTENER (snd (releaseLock c url lockId w)) = URL_SHORTENER w"
  using assms
  by (auto simp: releaseLock_def releaseLock_try_def kv_get_def
           split: sum.splits prod.splits if_splits)

lemma releaseLock_match:
  assumes "kv_lookup w (''lock:'' @ url) = Some lockId"
    and "\<not> kv_throws c (KvGet (''lock:'' @ url))" and "\<not> kv_throws c (KvDelete (''lock:'' @ url))"
  shows "snd (releaseLock c url lockId w) = w\<lparr>URL_SHORTENER := AList.delete (''lock:'' @ url) (URL_SHORTENER w)\<rparr>"
  using assms
  by (auto simp: releaseLock_def releaseLock_try_def kv_get_def kv_delete_def
           split: sum.splits prod.splits if_splits)

lemma releaseLock_error:
  assumes "fst (releaseLock_try c url lockId w) = Inl e"
  shows "snd (releaseLock c url lockId w) = console_error ''Error releasing lock:'' w"
  using assms
  by (auto simp: releaseLock_def releaseLock_try_def kv_get_def kv_delete_def
           split: sum.splits prod.splits if_splits)

lemma releaseLock_changes:
  assumes "kv_lookup (snd (releaseLock c url lockId w)) key \<noteq> kv_lookup w key"
  shows "key = ''lock:'' @ url \<and> kv_lookup w key = Some lockId
         \<and> kv_lookup (snd (releaseLock c url lockId w)) key = None"
  using assms
  by (auto simp: releaseLock_def releaseLock_try_def kv_get_def kv_delete_def kv_lookup_def delete_conv'
           split: sum.splits prod.splits if_splits)

section \<open>Facts about POST /api/shorten\<close>

text \<open>
  The handler by its paths: the lock, the urlId, the \<^verbatim>\<open>try\<close> block (conflict, success,
  the keys it leaves alone), then the whole handler with the release of the lock.
\<close>

lemma acquireLock_ok:
  assumes "\<not> kv_throws c (KvPut (''lock:'' @ url))"
  shows "acquireLock c url w =
          (Some (nanoid_lock c),
           w\<lparr>URL_SHORTENER := AList.update (''lock:'' @ url) (nanoid_lock c, Some 60) (URL_SHORTENER w)\<rparr>)"
  using assms by (simp add: acquireLock_def kv_put_def Let_def)

lemma acquireLock_throws:
  assumes "kv_throws c (KvPut (''lock:'' @ url))"
  shows "acquireLock c url w = (None, console_error ''Error acquiring lock:'' w)"
  using assms by (simp add: acquireLock_def kv_put_def Let_def)

lemma resolve_urlId_reuse:
  assumes "\<not> kv_throws c (KvGet (''urlId:'' @ url))"
    and "kv_lookup w (''urlId:'' @ url) = Some v" and "v \<noteq> []"
  shows "resolve_urlId c url w = (Inr (v, False), w)"
  using assms by (simp add: resolve_urlId_def kv_get_def)

lemma resolve_urlId_new:
  assumes "\<not> kv_throws c (KvGet (''urlId:'' @ url))" and "\<not> kv_throws c (KvPut (''urlId:'' @ url))"
    and "kv_lookup w (''urlId:'' @ url) = None \<or> kv_lookup w (''urlId:'' @ url) = Some []"
  shows "resolve_urlId c url w =
           (Inr (nanoid_urlId c, True),
            w\<lparr>URL_SHORTENER := AList.update (''urlId:'' @ url) (nanoid_urlId c, None) (URL_SHORTENER w)\<rparr>)"
  using assms by (auto simp add: resolve_urlId_def kv_get_def kv_put_def)

lemma resolve_urlId_Inr:
  assumes "resolve_urlId c url w = (Inr (x, isNew), w1)"
  shows "kv_lookup w1 (''urlId:'' @ url) = Some x"
    and "kv_ttl w1 (''urlId:'' @ url) = kv_ttl w (''urlId:'' @ url) \<or> kv_ttl w1 (''urlId:'' @ url) = Some None"
    and "kv_lookup w (''urlId:'' @ url) = Some v \<Longrightarrow> v \<noteq> [] \<Longrightarrow> x = v"
    and "kv_lookup w (''urlId:'' @ url) = None \<or> kv_lookup w (''urlId:'' @ url) = Some [] \<Longrightarrow> x = nanoid_urlId c"
    and "\<And>key. key \<noteq> ''urlId:'' @ url \<Longrightarrow> map_of (URL_SHORTENER w1) key = map_of (URL_SHORTENER w) key"
    and "URL_CLICK_TRACKING w1 = URL_CLICK_TRACKING w"
    and "analytics_queries w1 = analytics_queries w"
  using assms
  by (auto simp: resolve_urlId_def kv_get_def kv_put_def kv_lookup_def kv_ttl_def update_conv'
           split: if_splits)

lemma resolve_urlId_keeps:
  assumes "kv_lookup w (''urlId:'' @ u) = Some v" and "v \<noteq> []"
  shows "kv_lookup (snd (resolve_urlId c url w)) (''urlId:'' @ u) = Some v"
  using assms
  by (auto simp: resolve_urlId_def kv_get_def kv_put_def kv_lookup_def update_conv')

lemma resolve_urlId_frame:
  assumes "key \<noteq> ''urlId:'' @ url"
  shows "map_of (URL_SHORTENER (snd (resolve_urlId c url w))) key = map_of (URL_SHORTENER w) key"
  using assms
  by (auto simp: resolve_urlId_def kv_get_def kv_put_def update_conv')

lemma status_responses [simp]:
  "status conflict_response = 400" "status (created_response a b) = 201"
  "status busy_response = 429" "status store_failure_response = 500"
  by (simp_all add: conflict_response_def created_response_def busy_response_def store_failure_response_def)

lemma shorten_try_exists:
  assumes "\<not> kv_throws c (KvGet (''link:'' @ code))"
    and "kv_lookup w (''link:'' @ code) = Some v" and "v \<noteq> []"
  shows "shorten_try c url code e d w =
           (Inr conflict_response, console_log ''/api/shorten failed as short Code exists:'' w)"
  using assms by (simp add: shorten_try_def kv_get_def)

lemma shorten_try_400:
  assumes "fst (shorten_try c url code e d w) = Inr r" and "status r = 400"
  shows "shorten_try c url code e d w =
           (Inr conflict_response, console_log ''/api/shorten failed as short Code exists:'' w)"
    and "\<exists>v. kv_lookup w (''link:'' @ code) = Some v \<and> v \<noteq> []"
  using assms
  by (auto simp: shorten_try_def kv_get_def kv_put_def Let_def
           split: sum.splits prod.splits if_splits)

lemma shorten_try_frame:
  assumes "key \<noteq> ''link:'' @ code" and "key \<noteq> ''urlId:'' @ url"
  shows "map_of (URL_SHORTENER (snd (shorten_try c url code e d w))) key = map_of (URL_SHORTENER w) key"
proof (cases "resolve_urlId c url w")
  case (Pair res w1)
  have "map_of (URL_SHORTENER w1) key = map_of (URL_SHORTENER w) key"
    using resolve_urlId_frame [OF assms(2), of c w] Pair by simp
  then show ?thesis
    using assms(1) Pair
    by (auto simp: shorten_try_def kv_get_def kv_put_def Let_def update_conv' console_log_def
             split: sum.splits prod.splits if_splits)
qed

lemma shorten_try_keeps_urlId:
  assumes "kv_lookup w (''urlId:'' @ u) = Some v" and "v \<noteq> []"
  shows "kv_lookup (snd (shorten_try c url code e d w)) (''urlId:'' @ u) = Some v"
proof (cases "resolve_urlId c url w")
  case (Pair res w1)
  have "kv_lookup w1 (''urlId:'' @ u) = Some v"
    using resolve_urlId_keeps [OF assms, of c url] Pair by simp
  then show ?thesis
    using assms Pair
    by (auto simp: shorten_try_def kv_get_def kv_put_def Let_def update_conv' kv_lookup_def console_log_def
             split: sum.splits prod.splits if_splits)
qed

lemma shorten_try_201:
  assumes "fst (shorten_try c url code e d w) = Inr r" and "status r = 201"
  shows "\<exists>x isNew w1. resolve_urlId c url w = (Inr (x, isNew), w1)
           \<and> map_of (URL_SHORTENER (snd (shorten_try c url code e d w))) (''link:'' @ code)
               = Some (JSON_stringify c (make_kvData url e d x), None)
           \<and> kv_lookup (snd (shorten_try c url code e d w)) (''urlId:'' @ url) = Some x
           \<and> r = created_response (req_origin c @ ''/'' @ code) url"
proof (cases "resolve_urlId c url w")
  case (Pair res w1)
  show ?thesis
  proof (cases res)
    case (Inl err)
    then show ?thesis
      using assms Pair
      by (auto simp: shorten_try_def kv_get_def split: if_splits)
  next
    case (Inr p)
    obtain x isNew where p: "p = (x, isNew)" by (cases p)
    have x: "kv_lookup w1 (''urlId:'' @ url) = Some x"
      using resolve_urlId_Inr(1) Pair Inr p by simp
    show ?thesis
      using assms Pair Inr p x
      by (auto simp: shorten_try_def kv_get_def kv_put_def Let_def update_conv' kv_lookup_def console_log_def
               split: if_splits)
  qed
qed

lemma shorten_try_succeeds:
  assumes "\<not> kv_throws c (KvGet (''link:'' @ code))" and "\<not> kv_throws c (KvPut (''link:'' @ code))"
    and "\<not> kv_throws c (KvGet (''urlId:'' @ url))" and "\<not> kv_throws c (KvPut (''urlId:'' @ url))"
    and "kv_lookup w (''link:'' @ code) = None \<or> kv_lookup w (''link:'' @ code) = Some []"
  shows "fst (shorten_try c url code e d w) = Inr (created_response (req_origin c @ ''/'' @ code) url)"
proof (cases "kv_lookup w (''urlId:'' @ url) = None \<or> kv_lookup w (''urlId:'' @ url) = Some []")
  case True
  show ?thesis
    using assms resolve_urlId_new [OF assms(3,4) True]
    by (auto simp: shorten_try_def kv_get_def kv_put_def Let_def)
next
  case False
  then obtain v where v: "kv_lookup w (''urlId:'' @ url) = Some v" "v \<noteq> []" by auto
  show ?thesis
    using assms resolve_urlId_reuse [OF assms(3) v]
    by (auto simp: shorten_try_def kv_get_def kv_put_def Let_def)
qed

lemma releaseLock_case:
  "(case releaseLock c u l x of (Inl e, w4) \<Rightarrow> f e w4 | (Inr y, w4) \<Rightarrow> g y w4)
     = g () (snd (releaseLock c u l x))"
  using releaseLock_returns [of c u l x]
  by (cases "releaseLock c u l x") (auto split: sum.splits)

lemma shorten_busy:
  assumes "kv_throws c (KvPut (''lock:'' @ req_originalUrl body)) \<or> nanoid_lock c = []"
  shows "fst (shorten c body w) = Inr busy_response"
    and "URL_SHORTENER (snd (shorten c body w)) = URL_SHORTENER w \<or> nanoid_lock c = []"
  using assms
  by (auto simp: shorten_def Let_def acquireLock_def kv_put_def)

lemma shorten_locked:
  assumes "\<not> kv_throws c (KvPut (''lock:'' @ req_originalUrl body))" and "nanoid_lock c \<noteq> []"
  shows "shorten c body w =
           (case shorten_try c (req_originalUrl body) (shortCode_of c body) (expiration_of body)
                   (description_of body) (snd (acquireLock c (req_originalUrl body) w)) of
              (Inr r, w2) \<Rightarrow>
                (Inr r, snd (releaseLock c (req_originalUrl body) (nanoid_lock c) w2))
            | (Inl e, w2) \<Rightarrow>
                (Inr store_failure_response,
                 snd (releaseLock c (req_originalUrl body) (nanoid_lock c)
                        (console_error ''Error storing URL in KV:'' w2))))"
  using assms
  by (simp add: shorten_def Let_def acquireLock_ok releaseLock_case split: prod.splits sum.splits)

lemma shorten_not_busy:
  assumes "fst (shorten c body w) = Inr r" and "status r \<noteq> 429"
  shows "\<not> kv_throws c (KvPut (''lock:'' @ req_originalUrl body)) \<and> nanoid_lock c \<noteq> []"
  using assms shorten_busy(1) [of c body w] by auto

lemma acquireLock_lookup:
  assumes "\<not> kv_throws c (KvPut (''lock:'' @ url))"
  shows "map_of (URL_SHORTENER (snd (acquireLock c url w))) key =
           (if key = ''lock:'' @ url then Some (nanoid_lock c, Some 60) else map_of (URL_SHORTENER w) key)"
  using assms by (simp add: acquireLock_ok update_conv')

lemma lookup_cong:
  assumes "map_of (URL_SHORTENER a) k = map_of (URL_SHORTENER b) k"
  shows "kv_lookup a k = kv_lookup b k" and "kv_ttl a k = kv_ttl b k"
  using assms by (simp_all add: kv_lookup_def kv_ttl_def)

lemma shorten_400:
  assumes "fst (shorten c body w) = Inr r" and "status r = 400"
  shows "r = conflict_response"
    and "snd (shorten c body w) =
           snd (releaseLock c (req_originalUrl body) (nanoid_lock c)
                  (console_log ''/api/shorten failed as short Code exists:''
                     (snd (acquireLock c (req_originalUrl body) w))))"
    and "\<exists>v. kv_lookup w (''link:'' @ shortCode_of c body) = Some v \<and> v \<noteq> []"
proof -
  let ?url = "req_originalUrl body"
  let ?w1 = "snd (acquireLock c ?url w)"
  let ?attempt = "shorten_try c ?url (shortCode_of c body) (expiration_of body) (description_of body) ?w1"
  have lock: "\<not> kv_throws c (KvPut (''lock:'' @ ?url))" "nanoid_lock c \<noteq> []"
    using shorten_not_busy [OF assms(1)] assms(2) by simp_all
  note unfolded = shorten_locked [OF lock, of w]
  obtain res w2 where t: "?attempt = (res, w2)" by (cases ?attempt)
  have res: "res = Inr r"
    using assms unfolded t by (cases res) auto
  then have t400: "?attempt = (Inr conflict_response, console_log ''/api/shorten failed as short Code exists:'' ?w1)"
    and ex: "\<exists>v. kv_lookup ?w1 (''link:'' @ shortCode_of c body) = Some v \<and> v \<noteq> []"
    using shorten_try_400 [of c ?url "shortCode_of c body" "expiration_of body" "description_of body" ?w1 r]
      t assms(2) by simp_all
  show "r = conflict_response"
    using t400 t res by simp
  show "snd (shorten c body w) =
           snd (releaseLock c ?url (nanoid_lock c)
                  (console_log ''/api/shorten failed as short Code exists:'' ?w1))"
    using unfolded t400 by simp
  have "kv_lookup ?w1 (''link:'' @ shortCode_of c body) = kv_lookup w (''link:'' @ shortCode_of c body)"
    by (rule lookup_cong) (simp add: acquireLock_lookup [OF lock(1)])
  then show "\<exists>v. kv_lookup w (''link:'' @ shortCode_of c body) = Some v \<and> v \<noteq> []"
    using ex by simp
qed

lemma shorten_400_other_keys:
  assumes "fst (shorten c body w) = Inr r" and "status r = 400"
    and "key \<noteq> ''lock:'' @ req_originalUrl body"
  shows "map_of (URL_SHORTENER (snd (shorten c body w))) key = map_of (URL_SHORTENER w) key"
proof -
  have lock: "\<not> kv_throws c (KvPut (''lock:'' @ req_originalUrl body))"
    using shorten_not_busy [OF assms(1)] assms(2) by simp
  show ?thesis
    using assms(3)
    by (simp add: shorten_400(2) [OF assms(1,2)] releaseLock_other_keys acquireLock_lookup [OF lock])
qed

lemma shorten_releases:
  assumes "fst (shorten c body w) = Inr r" and "status r \<noteq> 429"
    and "\<not> kv_throws c (KvGet (''lock:'' @ req_originalUrl body))"
    and "\<not> kv_throws c (KvDelete (''lock:'' @ req_originalUrl body))"
  shows "kv_lookup (snd (shorten c body w)) (''lock:'' @ req_originalUrl body) = None"
proof -
  let ?url = "req_originalUrl body"
  let ?w1 = "snd (acquireLock c ?url w)"
  let ?attempt = "shorten_try c ?url (shortCode_of c body) (expiration_of body) (description_of body) ?w1"
  have lock: "\<not> kv_throws c (KvPut (''lock:'' @ ?url))" "nanoid_lock c \<noteq> []"
    using shorten_not_busy [OF assms(1,2)] by simp_all
  note unfolded = shorten_locked [OF lock, of w]
  obtain res w2 where t: "?attempt = (res, w2)" by (cases ?attempt)
  have "map_of (URL_SHORTENER w2) (''lock:'' @ ?url) = map_of (URL_SHORTENER ?w1) (''lock:'' @ ?url)"
    using shorten_try_frame [of "''lock:'' @ ?url" "shortCode_of c body" ?url c "expiration_of body" "description_of body" ?w1] t
    by simp
  then have held: "kv_lookup w2 (''lock:'' @ ?url) = Some (nanoid_lock c)"
    by (simp add: kv_lookup_def acquireLock_lookup [OF lock(1)])
  have gone: "kv_lookup (snd (releaseLock c ?url (nanoid_lock c) x)) (''lock:'' @ ?url) = None"
    if "kv_lookup x (''lock:'' @ ?url) = Some (nanoid_lock c)" for x
    using releaseLock_match [OF that assms(3,4)] by (simp add: kv_lookup_def delete_conv')
  show ?thesis
  proof (cases res)
    case (Inl e)
    then show ?thesis
      using unfolded t gone [of "console_error ''Error storing URL in KV:'' w2"] held by simp
  next
    case (Inr r')
    then show ?thesis
      using unfolded t gone [of w2] held by simp
  qed
qed

lemma shorten_exists:
  assumes "\<not> kv_throws c (KvPut (''lock:'' @ req_originalUrl body))" and "nanoid_lock c \<noteq> []"
    and "\<not> kv_throws c (KvGet (''link:'' @ shortCode_of c body))"
    and "kv_lookup w (''link:'' @ shortCode_of c body) = Some v" and "v \<noteq> []"
  shows "fst (shorten c body w) = Inr conflict_response"
proof -
  have "kv_lookup (snd (acquireLock c (req_originalUrl body) w)) (''link:'' @ shortCode_of c body) = Some v"
    using assms(4) by (simp add: kv_lookup_def acquireLock_lookup [OF assms(1)])
  from shorten_try_exists [OF assms(3) this assms(5)]
  show ?thesis
    by (simp add: shorten_locked [OF assms(1,2)])
qed

lemma shorten_succeeds:
  assumes "\<not> kv_throws c (KvPut (''lock:'' @ req_originalUrl body))" and "nanoid_lock c \<noteq> []"
    and "\<not> kv_throws c (KvGet (''link:'' @ shortCode_of c body))"
    and "\<not> kv_throws c (KvPut (''link:'' @ shortCode_of c body))"
    and "\<not> kv_throws c (KvGet (''urlId:'' @ req_originalUrl body))"
    and "\<not> kv_throws c (KvPut (''urlId:'' @ req_originalUrl body))"
    and "kv_lookup w (''link:'' @ shortCode_of c body) = None
         \<or> kv_lookup w (''link:'' @ shortCode_of c body) = Some []"
  shows "fst (shorten c body w) =
           Inr (created_response (req_origin c @ ''/'' @ shortCode_of c body) (req_originalUrl body))"
proof -
  let ?w1 = "snd (acquireLock c (req_originalUrl body) w)"
  let ?attempt = "shorten_try c (req_originalUrl body) (shortCode_of c body) (expiration_of body) (description_of body) ?w1"
  have "kv_lookup ?w1 (''link:'' @ shortCode_of c body) = kv_lookup w (''link:'' @ shortCode_of c body)"
    by (simp add: kv_lookup_def acquireLock_lookup [OF assms(1)])
  then have "kv_lookup ?w1 (''link:'' @ shortCode_of c body) = None
             \<or> kv_lookup ?w1 (''link:'' @ shortCode_of c body) = Some []"
    using assms(7) by simp
  from shorten_try_succeeds [OF assms(3,4,5,6) this]
  have "fst ?attempt = Inr (created_response (req_origin c @ ''/'' @ shortCode_of c body) (req_originalUrl body))" .
  then show ?thesis
    by (cases ?attempt) (simp add: shorten_locked [OF assms(1,2)])
qed

lemma shorten_201:
  assumes "fst (shorten c body w) = Inr r" and "status r = 201"
  shows "\<exists>x. map_of (URL_SHORTENER (snd (shorten c body w))) (''link:'' @ shortCode_of c body)
               = Some (JSON_stringify c
                         (make_kvData (req_originalUrl body) (expiration_of body) (description_of body) x),
                       None)
           \<and> kv_lookup (snd (shorten c body w)) (''urlId:'' @ req_originalUrl body) = Some x
           \<and> (\<forall>v. kv_lookup w (''urlId:'' @ req_originalUrl body) = Some v \<and> v \<noteq> [] \<longrightarrow> x = v)
           \<and> (kv_lookup w (''urlId:'' @ req_originalUrl body) = None
                \<or> kv_lookup w (''urlId:'' @ req_originalUrl body) = Some [] \<longrightarrow> x = nanoid_urlId c)
           \<and> r = created_response (req_origin c @ ''/'' @ shortCode_of c body) (req_originalUrl body)"
proof -
  let ?url = "req_originalUrl body"
  let ?code = "shortCode_of c body"
  let ?w1 = "snd (acquireLock c ?url w)"
  let ?attempt = "shorten_try c ?url ?code (expiration_of body) (description_of body) ?w1"
  have lock: "\<not> kv_throws c (KvPut (''lock:'' @ ?url))" "nanoid_lock c \<noteq> []"
    using shorten_not_busy [OF assms(1)] assms(2) by simp_all
  note unfolded = shorten_locked [OF lock, of w]
  obtain res w2 where t: "?attempt = (res, w2)" by (cases ?attempt)
  have res: "res = Inr r"
    using assms unfolded t by (cases res) auto
  then have final: "snd (shorten c body w) = snd (releaseLock c ?url (nanoid_lock c) w2)"
    using unfolded t by simp
  from shorten_try_201 [of c ?url ?code "expiration_of body" "description_of body" ?w1 r] t res assms(2)
  obtain x isNew w1' where
    r1: "resolve_urlId c ?url ?w1 = (Inr (x, isNew), w1')"
    and r2: "map_of (URL_SHORTENER w2) (''link:'' @ ?code)
               = Some (JSON_stringify c (make_kvData ?url (expiration_of body) (description_of body) x), None)"
    and r3: "kv_lookup w2 (''urlId:'' @ ?url) = Some x"
    and r4: "r = created_response (req_origin c @ ''/'' @ ?code) ?url"
    by auto
  have same: "kv_lookup ?w1 (''urlId:'' @ ?url) = kv_lookup w (''urlId:'' @ ?url)"
    by (simp add: kv_lookup_def acquireLock_lookup [OF lock(1)])
  have a: "map_of (URL_SHORTENER (snd (shorten c body w))) (''link:'' @ ?code)
             = Some (JSON_stringify c (make_kvData ?url (expiration_of body) (description_of body) x), None)"
    using r2 by (simp add: final releaseLock_other_keys)
  have b: "kv_lookup (snd (shorten c body w)) (''urlId:'' @ ?url) = Some x"
    using r3 by (simp add: final kv_lookup_def releaseLock_other_keys)
  have c: "\<forall>v. kv_lookup w (''urlId:'' @ ?url) = Some v \<and> v \<noteq> [] \<longrightarrow> x = v"
    using resolve_urlId_Inr(3) [OF r1] same by auto
  have d: "kv_lookup w (''urlId:'' @ ?url) = None \<or> kv_lookup w (''urlId:'' @ ?url) = Some []
            \<longrightarrow> x = nanoid_urlId c"
    using resolve_urlId_Inr(4) [OF r1] same by auto
  show ?thesis
    using a b c d r4 by blast
qed

lemma shorten_keeps_urlId:
  assumes "kv_lookup w (''urlId:'' @ u) = Some v" and "v \<noteq> []"
  shows "kv_lookup (snd (shorten c body w)) (''urlId:'' @ u) = Some v"
proof (cases "kv_throws c (KvPut (''lock:'' @ req_originalUrl body))")
  case True
  then show ?thesis
    using assms by (simp add: shorten_def Let_def acquireLock_throws)
next
  case False
  let ?url = "req_originalUrl body"
  let ?w1 = "snd (acquireLock c ?url w)"
  let ?attempt = "shorten_try c ?url (shortCode_of c body) (expiration_of body) (description_of body) ?w1"
  have w1: "kv_lookup ?w1 (''urlId:'' @ u) = Some v"
    using assms(1) by (simp add: kv_lookup_def acquireLock_lookup [OF False])
  show ?thesis
  proof (cases "nanoid_lock c = []")
    case True
    then show ?thesis
      using w1 False by (simp add: shorten_def Let_def acquireLock_ok)
  next
    case nonempty: False
    obtain res w2 where t: "?attempt = (res, w2)" by (cases ?attempt)
    have w2: "kv_lookup w2 (''urlId:'' @ u) = Some v"
      using shorten_try_keeps_urlId [OF w1 assms(2), of c ?url "shortCode_of c body" "expiration_of body" "description_of body"] t
      by simp
    have rel: "kv_lookup (snd (releaseLock c ?url l x)) k = kv_lookup x k"
      if "k \<noteq> ''lock:'' @ ?url" for l x k
      by (rule lookup_cong) (rule releaseLock_other_keys [OF that])
    show ?thesis
      using w2 t by (cases res) (simp_all add: shorten_locked [OF False nonempty] rel)
  qed
qed

lemma shorten_returns: "\<exists>r. fst (shorten c body w) = Inr r"
proof (cases "kv_throws c (KvPut (''lock:'' @ req_originalUrl body)) \<or> nanoid_lock c = []")
  case True
  then show ?thesis using shorten_busy(1) [of c body w] by blast
next
  case False
  then show ?thesis
    using shorten_locked [of c body w]
    by (auto split: prod.splits sum.splits)
qed

section \<open>Facts about GET /:shortCode, the overview and sequences of requests\<close>

text \<open>
  The read path by its cases, the overview's effect on the store, and what a sequence
  of requests preserves: a stored urlId, and the absence of a key when nothing is
  created.
\<close>

lemma logAnalytics_fields [simp]:
  "URL_SHORTENER (logAnalytics c code x w) = URL_SHORTENER w"
  "URL_CLICK_TRACKING (logAnalytics c code x w) = URL_CLICK_TRACKING w @ [\<lparr>blobs = [x, code], indexes = [x]\<rparr>]"
  "analytics_queries (logAnalytics c code x w) = analytics_queries w"
  "kv_lookup (logAnalytics c code x w) k = kv_lookup w k"
  by (simp_all add: logAnalytics_def Let_def console_log_def kv_lookup_def)



lemma redirect_live:
  assumes "\<not> kv_throws c (KvGet (''link:'' @ code))"
    and "kv_lookup w (''link:'' @ code) = Some s" and "s \<noteq> []" and "JSON_parse c s = Inr d"
    and "expiration d = None \<or> expiration d = Some 0 \<or> (\<exists>e. expiration d = Some e \<and> Date_now c \<le> e)"
  shows "redirect c code w =
           (Inr (RedirectResponse (originalUrl d)), logAnalytics c code (urlId d) w)"
  using assms by (auto simp: redirect_def kv_get_def)

lemma redirect_Redirect:
  assumes "fst (redirect c code w) = Inr (RedirectResponse u)"
  shows "\<exists>s d. kv_lookup w (''link:'' @ code) = Some s \<and> JSON_parse c s = Inr d \<and> u = originalUrl d
           \<and> snd (redirect c code w) = logAnalytics c code (urlId d) w"
  using assms
  by (auto simp: redirect_def kv_get_def kv_delete_def split: if_splits sum.splits option.splits)

lemma redirect_lookup:
  "kv_lookup (snd (redirect c code w)) k = kv_lookup w k
   \<or> (k = ''link:'' @ code \<and> kv_lookup (snd (redirect c code w)) k = None)"
  by (auto simp: redirect_def kv_get_def kv_delete_def kv_lookup_def delete_conv'
           split: if_splits sum.splits option.splits)

lemma redirect_cf: "redirect (c\<lparr>req_cf := x\<rparr>) code w = redirect c code w"
  by (auto simp: redirect_def kv_get_def kv_delete_def logAnalytics_def split: sum.splits option.splits)

lemma overview_store: "URL_SHORTENER (snd (overview c w)) = URL_SHORTENER w"
  by (auto simp: overview_def overview_try_def kv_list_def fetchAnalyticsData_def Let_def
           split: sum.splits prod.splits option.splits if_splits)

lemma overview_no_links:
  assumes "\<not> kv_throws c (KvList ''link:'')"
    and "filter (\<lambda>key. startsWith key ''link:'') (map fst (URL_SHORTENER w)) = []"
  shows "overview c w =
           (JsonResponse 200
              (JObj [(''success'', JBool True),
                     (''overview'', JObj [(''totalClicks'', JNum 0), (''totalLinks'', JNum 0),
                                          (''avgClicksPerLink'', JNum 0)]),
                     (''recentLinks'', JArr [])]),
            w)"
  using assms by (simp add: overview_def overview_try_def kv_list_def)

lemma handle_keeps_urlId:
  assumes "kv_lookup w (''urlId:'' @ u) = Some v" and "v \<noteq> []"
  shows "kv_lookup (handle c r w) (''urlId:'' @ u) = Some v"
proof (cases r)
  case (Shorten body)
  then show ?thesis using shorten_keeps_urlId [OF assms] by simp
next
  case (Visit code)
  then show ?thesis
    using redirect_lookup [of c code w "''urlId:'' @ u"] assms(1) by auto
next
  case Overview
  then show ?thesis
    using assms(1) by (simp add: kv_lookup_def overview_store)
qed

lemma run_keeps_urlId:
  assumes "kv_lookup w (''urlId:'' @ u) = Some v" and "v \<noteq> []"
  shows "kv_lookup (run rs w) (''urlId:'' @ u) = Some v"
  using assms
proof (induction rs arbitrary: w)
  case Nil
  then show ?case by simp
next
  case (Cons a rs)
  obtain c r where a: "a = (c, r)" by (cases a)
  show ?case
    using Cons.IH [OF handle_keeps_urlId [OF Cons.prems, of c r] Cons.prems(2)] a by simp
qed





section \<open>The invariant of the store\<close>

text \<open>
  Every handler keeps the store free of empty values, provided \<^verbatim>\<open>nanoid()\<close> and
  \<^verbatim>\<open>JSON.stringify\<close> return non-empty strings; so does every sequence of requests,
  and the empty store satisfies the invariant.
\<close>

lemma values_nonempty_lookup:
  assumes "values_nonempty w" and "kv_lookup w key = Some v"
  shows "v \<noteq> []"
proof -
  from assms(2) obtain t where "map_of (URL_SHORTENER w) key = Some (v, t)"
    by (auto simp: kv_lookup_def)
  then have "(key, v, t) \<in> set (URL_SHORTENER w)"
    by (rule map_of_SomeD)
  then show ?thesis
    using assms(1) by (auto simp: values_nonempty_def list_all_iff)
qed

lemma list_all_update:
  assumes "list_all P al" and "P (k, v)"
  shows "list_all P (AList.update k v al)"
  using assms by (induction al) auto

lemma list_all_delete:
  assumes "list_all P al"
  shows "list_all P (AList.delete k al)"
  using assms by (induction al) auto

lemma values_nonempty_simps [simp]:
  "values_nonempty (console_log m w) = values_nonempty w"
  "values_nonempty (console_error m w) = values_nonempty w"
  "values_nonempty (logAnalytics c code x w) = values_nonempty w"
  by (simp_all add: values_nonempty_def console_log_def console_error_def)

lemma kv_put_nonempty:
  assumes "values_nonempty w" and "v \<noteq> []" and "kv_put c k v t w = Inr w'"
  shows "values_nonempty w'"
  using assms by (auto simp: kv_put_def values_nonempty_def list_all_update split: if_splits)

lemma kv_delete_nonempty:
  assumes "values_nonempty w" and "kv_delete c k w = Inr w'"
  shows "values_nonempty w'"
  using assms by (auto simp: kv_delete_def values_nonempty_def list_all_delete split: if_splits)

lemma acquireLock_nonempty:
  assumes "values_nonempty w" and "nanoid_lock c \<noteq> []"
  shows "values_nonempty (snd (acquireLock c url w))"
  using assms
  by (auto simp: acquireLock_def Let_def split: sum.splits dest: kv_put_nonempty)

lemma releaseLock_nonempty:
  assumes "values_nonempty w"
  shows "values_nonempty (snd (releaseLock c url l w))"
  using assms
  by (auto simp: releaseLock_def releaseLock_try_def split: sum.splits prod.splits if_splits
           dest: kv_delete_nonempty)

lemma resolve_urlId_nonempty:
  assumes "values_nonempty w" and "nanoid_urlId c \<noteq> []"
  shows "values_nonempty (snd (resolve_urlId c url w))"
  using assms
  by (auto simp: resolve_urlId_def split: sum.splits if_splits dest: kv_put_nonempty)

lemma shorten_try_nonempty:
  assumes "values_nonempty w" and "nanoid_urlId c \<noteq> []" and "\<And>d. JSON_stringify c d \<noteq> []"
  shows "values_nonempty (snd (shorten_try c url code e d w))"
proof (cases "resolve_urlId c url w")
  case (Pair res w1)
  have "values_nonempty w1"
    using resolve_urlId_nonempty [OF assms(1,2), of url] Pair by simp
  then show ?thesis
    using assms(1,3) Pair
    by (auto simp: shorten_try_def Let_def split: sum.splits prod.splits if_splits
             dest!: kv_put_nonempty [rotated 2])
qed

lemma shorten_nonempty:
  assumes "values_nonempty w" and "nanoid_lock c \<noteq> []" and "nanoid_urlId c \<noteq> []"
    and "\<And>d. JSON_stringify c d \<noteq> []"
  shows "values_nonempty (snd (shorten c body w))"
proof (cases "kv_throws c (KvPut (''lock:'' @ req_originalUrl body))")
  case True
  then show ?thesis
    using assms(1) by (simp add: shorten_def Let_def acquireLock_throws)
next
  case False
  let ?w1 = "snd (acquireLock c (req_originalUrl body) w)"
  let ?attempt = "shorten_try c (req_originalUrl body) (shortCode_of c body) (expiration_of body) (description_of body) ?w1"
  have w1: "values_nonempty ?w1"
    by (rule acquireLock_nonempty [OF assms(1,2)])
  obtain res w2 where t: "?attempt = (res, w2)" by (cases ?attempt)
  have "values_nonempty w2"
    using shorten_try_nonempty [OF w1 assms(3,4), of "req_originalUrl body" "shortCode_of c body"
        "expiration_of body" "description_of body"] t
    by simp
  then show ?thesis
    using t by (cases res) (simp_all add: shorten_locked [OF False assms(2)] releaseLock_nonempty)
qed

lemma redirect_nonempty:
  assumes "values_nonempty w"
  shows "values_nonempty (snd (redirect c code w))"
  using assms
  by (auto simp: redirect_def split: sum.splits if_splits option.splits dest: kv_delete_nonempty)

lemma overview_nonempty:
  assumes "values_nonempty w"
  shows "values_nonempty (snd (overview c w))"
  using assms overview_store [of c w] by (simp add: values_nonempty_def)

lemma handle_nonempty:
  assumes "values_nonempty w" and "runtime_ok c"
  shows "values_nonempty (handle c r w)"
  using assms
  by (cases r) (simp_all add: runtime_ok_def shorten_nonempty redirect_nonempty overview_nonempty)

lemma run_nonempty:
  assumes "values_nonempty w" and "list_all (\<lambda>(c, r). runtime_ok c) rs"
  shows "values_nonempty (run rs w)"
  using assms
proof (induction rs arbitrary: w)
  case Nil
  then show ?case by simp
next
  case (Cons a rs)
  obtain c r where a: "a = (c, r)" by (cases a)
  show ?case
    using Cons.IH [of "handle c r w"] handle_nonempty [of w c r] Cons.prems a by simp
qed

lemma empty_world_nonempty: "values_nonempty empty_world"
  by (simp add: values_nonempty_def empty_world_def)

section \<open>Facts about the concrete inputs\<close>

text \<open>The example codec, context and request, and the example request served in the empty world.\<close>

lemma example_stringify_nonempty: "example_stringify d \<noteq> []"
  by (simp add: example_stringify_def example_texts_def split: option.splits)

lemma example_roundtrip:
  assumes "e \<in> {None, Some 0, Some 5000, Some 600000}"
  shows "example_parse (example_stringify (example_record e)) = Inr (example_record e)"
  using assms
  by (auto simp: example_parse_def example_stringify_def example_texts_def example_record_def)

lemma example_ctx_fields [simp]:
  "kv_throws (example_ctx t) op = False" "Date_now (example_ctx t) = t"
  "nanoid_lock (example_ctx t) = ''lock-1''" "nanoid_urlId (example_ctx t) = ''id-1''"
  "req_origin (example_ctx t) = ''https://sho.rt''" "req_cf (example_ctx t) = None"
  "JSON_stringify (example_ctx t) = example_stringify" "JSON_parse (example_ctx t) = example_parse"
  by (simp_all add: example_ctx_def)

lemma example_request_fields [simp]:
  "req_originalUrl (example_request e) = ''https://example.com''"
  "shortCode_of c (example_request e) = ''abcd''"
  "description_of (example_request e) = []"
  "expiration_of (example_request e) = (case e of None \<Rightarrow> - 1 | Some x \<Rightarrow> x)"
  by (simp_all add: example_request_def shortCode_of_def description_of_def expiration_of_def split: option.splits)

lemma first_create:
  assumes "e \<noteq> Some (- 1)"
  shows "shorten (example_ctx t) (example_request e) empty_world =
           (Inr (created_response ''https://sho.rt/abcd'' ''https://example.com''), created_world e)"
proof -
  have rec: "make_kvData ''https://example.com'' (case e of None \<Rightarrow> - 1 | Some x \<Rightarrow> x) [] ''id-1'' = example_record e"
    using assms by (cases e) (simp_all add: make_kvData_def example_record_def)
  show ?thesis
    by (simp add: shorten_def Let_def acquireLock_def kv_put_def shorten_try_def kv_get_def kv_lookup_def
          resolve_urlId_def console_log_def releaseLock_def releaseLock_try_def kv_delete_def
          rec empty_world_def created_world_def)
qed

lemma example_ctx_ok: "runtime_ok (example_ctx t)"
  by (simp add: runtime_ok_def example_stringify_nonempty)

section \<open>The claims\<close>

text \<open>
  Claim C1. In a store that satisfies the invariant, a create that succeeds (201)
  stores under \<open>link:{shortCode}\<close> the text of a record whose field \<open>urlId\<close> is an
  identifier \<open>x\<close>: the identifier stored under \<open>urlId:{originalUrl}\<close> when the key is
  present, and otherwise the fresh \<^verbatim>\<open>nanoid()\<close>, which is then stored under that key.
  After the request the key holds \<open>x\<close>. After any sequence of requests \<open>rs\<close> the key
  still holds \<open>x\<close>, and every later create for the same URL that succeeds stores a
  record whose field \<open>urlId\<close> is the same \<open>x\<close> and leaves \<open>x\<close> under the key. The
  result of \<^verbatim>\<open>nanoid()\<close> is taken to be non-empty, as the library's identifiers are.
\<close>

theorem shorten_reuses_urlId:
  assumes "values_nonempty w"
    and "fst (shorten c body w) = Inr r" and "status r = 201" and "nanoid_urlId c \<noteq> []"
  shows "\<exists>x. x \<noteq> []
           \<and> (kv_lookup w (''urlId:'' @ req_originalUrl body) = Some v \<longrightarrow> x = v)
           \<and> (kv_lookup w (''urlId:'' @ req_originalUrl body) = None \<longrightarrow> x = nanoid_urlId c)
           \<and> kv_lookup (snd (shorten c body w)) (''urlId:'' @ req_originalUrl body) = Some x
           \<and> kv_lookup (snd (shorten c body w)) (''link:'' @ shortCode_of c body)
               = Some (JSON_stringify c
                         \<lparr>originalUrl = req_originalUrl body,
                          expiration = (if expiration_of body \<noteq> - 1 then Some (expiration_of body) else None),
                          description = Some (description_of body),
                          urlId = x\<rparr>)
           \<and> (req_originalUrl body2 = req_originalUrl body
                 \<and> fst (shorten c2 body2 (run rs (snd (shorten c body w)))) = Inr r2 \<and> status r2 = 201 \<longrightarrow>
                 kv_lookup (run rs (snd (shorten c body w))) (''urlId:'' @ req_originalUrl body) = Some x
                 \<and> kv_lookup (snd (shorten c2 body2 (run rs (snd (shorten c body w)))))
                     (''urlId:'' @ req_originalUrl body) = Some x
                 \<and> kv_lookup (snd (shorten c2 body2 (run rs (snd (shorten c body w)))))
                     (''link:'' @ shortCode_of c2 body2)
                   = Some (JSON_stringify c2
                             \<lparr>originalUrl = req_originalUrl body,
                              expiration = (if expiration_of body2 \<noteq> - 1 then Some (expiration_of body2) else None),
                              description = Some (description_of body2),
                              urlId = x\<rparr>))"
proof -
  let ?u = "''urlId:'' @ req_originalUrl body"
  let ?w' = "snd (shorten c body w)"
  from shorten_201 [OF assms(2,3)] obtain x where
    X: "map_of (URL_SHORTENER ?w') (''link:'' @ shortCode_of c body)
             = Some (JSON_stringify c
                       (make_kvData (req_originalUrl body) (expiration_of body) (description_of body) x), None)
        \<and> kv_lookup ?w' ?u = Some x
        \<and> (\<forall>v. kv_lookup w ?u = Some v \<and> v \<noteq> [] \<longrightarrow> x = v)
        \<and> (kv_lookup w ?u = None \<or> kv_lookup w ?u = Some [] \<longrightarrow> x = nanoid_urlId c)
        \<and> r = created_response (req_origin c @ ''/'' @ shortCode_of c body) (req_originalUrl body)" ..
  note link = X [THEN conjunct1]
    and stored = X [THEN conjunct2, THEN conjunct1]
    and reuse = X [THEN conjunct2, THEN conjunct2, THEN conjunct1]
    and fresh = X [THEN conjunct2, THEN conjunct2, THEN conjunct2, THEN conjunct1]
  have nonempty: "x \<noteq> []"
  proof (cases "kv_lookup w ?u")
    case None
    then show ?thesis using fresh assms(4) by simp
  next
    case (Some v')
    then show ?thesis using reuse values_nonempty_lookup [OF assms(1) Some] by auto
  qed
  have kept: "kv_lookup (run rs ?w') ?u = Some x" for rs
    by (rule run_keeps_urlId [OF stored nonempty])
  have later: "kv_lookup (snd (shorten c2 body2 (run rs ?w'))) ?u = Some x
               \<and> kv_lookup (snd (shorten c2 body2 (run rs ?w'))) (''link:'' @ shortCode_of c2 body2)
                 = Some (JSON_stringify c2
                           \<lparr>originalUrl = req_originalUrl body,
                            expiration = (if expiration_of body2 \<noteq> - 1 then Some (expiration_of body2) else None),
                            description = Some (description_of body2),
                            urlId = x\<rparr>)"
    if same: "req_originalUrl body2 = req_originalUrl body"
      and ok: "fst (shorten c2 body2 (run rs ?w')) = Inr r2" "status r2 = 201"
    for rs c2 body2 r2
  proof -
    from shorten_201 [OF ok] obtain y where
      Y: "map_of (URL_SHORTENER (snd (shorten c2 body2 (run rs ?w')))) (''link:'' @ shortCode_of c2 body2)
                = Some (JSON_stringify c2
                          (make_kvData (req_originalUrl body2) (expiration_of body2) (description_of body2) y), None)
          \<and> kv_lookup (snd (shorten c2 body2 (run rs ?w'))) (''urlId:'' @ req_originalUrl body2) = Some y
          \<and> (\<forall>v. kv_lookup (run rs ?w') (''urlId:'' @ req_originalUrl body2) = Some v \<and> v \<noteq> [] \<longrightarrow> y = v)
          \<and> (kv_lookup (run rs ?w') (''urlId:'' @ req_originalUrl body2) = None
               \<or> kv_lookup (run rs ?w') (''urlId:'' @ req_originalUrl body2) = Some [] \<longrightarrow> y = nanoid_urlId c2)
          \<and> r2 = created_response (req_origin c2 @ ''/'' @ shortCode_of c2 body2) (req_originalUrl body2)" ..
    note link2 = Y [THEN conjunct1]
      and stored2 = Y [THEN conjunct2, THEN conjunct1]
      and reuse2 = Y [THEN conjunct2, THEN conjunct2, THEN conjunct1]
    have "y = x"
      using reuse2 kept [of rs] nonempty same by simp
    then show ?thesis
      using link2 stored2 same by (simp add: kv_lookup_def make_kvData_def)
  qed
  have link': "kv_lookup ?w' (''link:'' @ shortCode_of c body)
                 = Some (JSON_stringify c
                           \<lparr>originalUrl = req_originalUrl body,
                            expiration = (if expiration_of body \<noteq> - 1 then Some (expiration_of body) else None),
                            description = Some (description_of body),
                            urlId = x\<rparr>)"
    using link by (simp add: kv_lookup_def make_kvData_def)
  have fresh': "kv_lookup w ?u = None \<longrightarrow> x = nanoid_urlId c"
    using fresh by simp
  show ?thesis
  proof (intro exI [of _ x] conjI impI)
    show "x \<noteq> []" by (rule nonempty)
    show "kv_lookup ?w' ?u = Some x" by (rule stored)
    show "kv_lookup ?w' (''link:'' @ shortCode_of c body)
            = Some (JSON_stringify c
                      \<lparr>originalUrl = req_originalUrl body,
                       expiration = (if expiration_of body \<noteq> - 1 then Some (expiration_of body) else None),
                       description = Some (description_of body),
                       urlId = x\<rparr>)"
      by (rule link')
  next
    assume "kv_lookup w ?u = Some v"
    then show "x = v" using reuse values_nonempty_lookup [OF assms(1)] by blast
  next
    assume "kv_lookup w ?u = None"
    then show "x = nanoid_urlId c" using fresh' by simp
  next
    assume h: "req_originalUrl body2 = req_originalUrl body
            \<and> fst (shorten c2 body2 (run rs ?w')) = Inr r2 \<and> status r2 = 201"
    show "kv_lookup (run rs ?w') ?u = Some x"
      by (rule kept)
    show "kv_lookup (snd (shorten c2 body2 (run rs ?w'))) ?u = Some x"
      using later [of body2 c2 rs r2] h by simp
    show "kv_lookup (snd (shorten c2 body2 (run rs ?w'))) (''link:'' @ shortCode_of c2 body2)
                 = Some (JSON_stringify c2
                           \<lparr>originalUrl = req_originalUrl body,
                            expiration = (if expiration_of body2 \<noteq> - 1 then Some (expiration_of body2) else None),
                            description = Some (description_of body2),
                            urlId = x\<rparr>)"
      using later [of body2 c2 rs r2] h by simp
  qed
qed

text \<open>
  The example request in the empty world stores the fresh identifier; a second create
  for the same URL, with another short code and other fresh identifiers at hand,
  stores a record with the first one.
\<close>

theorem shorten_reuses_urlId_witness:
  "kv_lookup (created_world None) ''urlId:https://example.com'' = Some ''id-1''
   \<and> kv_lookup
        (snd (shorten (example_ctx 2000\<lparr>nanoid_lock := ''lock-2'', nanoid_urlId := ''id-2''\<rparr>)
                (example_request None\<lparr>req_shortCode := Some ''wxyz''\<rparr>) (created_world None)))
        ''link:wxyz''
      = Some (example_stringify
                \<lparr>originalUrl = ''https://example.com'', expiration = None, description = Some [],
                 urlId = ''id-1''\<rparr>)
   \<and> kv_lookup
        (snd (shorten (example_ctx 2000\<lparr>nanoid_lock := ''lock-2'', nanoid_urlId := ''id-2''\<rparr>)
                (example_request None\<lparr>req_shortCode := Some ''wxyz''\<rparr>) (created_world None)))
        ''urlId:https://example.com''
      = Some ''id-1''"
proof -
  let ?c2 = "example_ctx 2000\<lparr>nanoid_lock := ''lock-2'', nanoid_urlId := ''id-2''\<rparr>"
  let ?b2 = "example_request None\<lparr>req_shortCode := Some ''wxyz''\<rparr>"
  let ?r2 = "created_response ''https://sho.rt/wxyz'' ''https://example.com''"
  have first: "shorten (example_ctx 1000) (example_request None) empty_world =
           (Inr (created_response ''https://sho.rt/abcd'' ''https://example.com''), created_world None)"
    by (rule first_create) simp
  have h1: "fst (shorten (example_ctx 1000) (example_request None) empty_world)
              = Inr (created_response ''https://sho.rt/abcd'' ''https://example.com'')"
    and h2: "status (created_response ''https://sho.rt/abcd'' ''https://example.com'') = 201"
    and h3: "nanoid_urlId (example_ctx 1000) \<noteq> []"
    by (simp_all add: first)
  note h0 = empty_world_nonempty
  have second: "fst (shorten ?c2 ?b2 (created_world None)) = Inr ?r2"
    using shorten_succeeds [of ?c2 ?b2 "created_world None"]
    by (simp add: example_ctx_def example_request_def shortCode_of_def created_world_def kv_lookup_def)
  show ?thesis
    using shorten_reuses_urlId [OF h0 h1 h2 h3, where ?rs = "[]" and ?c2.0 = ?c2 and ?body2.0 = ?b2 and ?r2.0 = ?r2]
      second
    unfolding first fst_conv snd_conv run.simps
    by (auto simp: empty_world_def kv_lookup_def created_world_def example_request_def example_ctx_def
          shortCode_of_def expiration_of_def description_of_def)
qed

text \<open>
  Claim C2. Let the store satisfy the invariant, the lock be acquired and the read of
  \<open>link:{shortCode}\<close> succeed (no store call throws, and \<^verbatim>\<open>nanoid()\<close> is non-empty). If
  a record is stored under \<open>link:{shortCode}\<close>, for the caller's short code or the
  generated one,
  the response is 400 with the body \<^verbatim>\<open>{success: false, message: "Short code already exists"}\<close>
  and no record under any \<open>link:\<close> key is written: there is no retry with another
  code. If no record is stored there and the other store calls succeed, the response
  is 201 with \<open>shortUrl = origin/shortCode\<close>; and a second request for the same short
  code, served next, gets the 400 response.
\<close>

theorem shorten_conflict:
  assumes "values_nonempty w"
    and "\<not> kv_throws c (KvPut (''lock:'' @ req_originalUrl body))" and "nanoid_lock c \<noteq> []"
    and "\<not> kv_throws c (KvGet (''link:'' @ shortCode_of c body))"
  shows "(kv_lookup w (''link:'' @ shortCode_of c body) = Some v \<longrightarrow>
            fst (shorten c body w)
              = Inr (JsonResponse 400
                       (JObj [(''success'', JBool False), (''message'', JStr ''Short code already exists'')]))
            \<and> kv_lookup (snd (shorten c body w)) (''link:'' @ s) = kv_lookup w (''link:'' @ s))
       \<and> (kv_lookup w (''link:'' @ shortCode_of c body) = None
            \<and> \<not> kv_throws c (KvPut (''link:'' @ shortCode_of c body))
            \<and> \<not> kv_throws c (KvGet (''urlId:'' @ req_originalUrl body))
            \<and> \<not> kv_throws c (KvPut (''urlId:'' @ req_originalUrl body)) \<longrightarrow>
            fst (shorten c body w)
              = Inr (JsonResponse 201
                       (JObj [(''shortUrl'', JStr (req_origin c @ ''/'' @ shortCode_of c body)),
                              (''originalUrl'', JStr (req_originalUrl body)),
                              (''success'', JBool True)]))
            \<and> ((\<forall>d. JSON_stringify c d \<noteq> [])
                 \<and> \<not> kv_throws c2 (KvPut (''lock:'' @ req_originalUrl body2)) \<and> nanoid_lock c2 \<noteq> []
                 \<and> \<not> kv_throws c2 (KvGet (''link:'' @ shortCode_of c2 body2))
                 \<and> shortCode_of c2 body2 = shortCode_of c body \<longrightarrow>
                 fst (shorten c2 body2 (snd (shorten c body w)))
                   = Inr (JsonResponse 400
                            (JObj [(''success'', JBool False),
                                   (''message'', JStr ''Short code already exists'')]))))"
proof (intro conjI impI)
  assume ex: "kv_lookup w (''link:'' @ shortCode_of c body) = Some v"
  then have conflict: "fst (shorten c body w) = Inr conflict_response"
    using shorten_exists [OF assms(2,3,4) ex] values_nonempty_lookup [OF assms(1) ex] by simp
  then show "fst (shorten c body w)
               = Inr (JsonResponse 400
                        (JObj [(''success'', JBool False), (''message'', JStr ''Short code already exists'')]))"
    by (simp add: conflict_response_def)
  show "kv_lookup (snd (shorten c body w)) (''link:'' @ s) = kv_lookup w (''link:'' @ s)"
    by (rule lookup_cong, rule shorten_400_other_keys [OF conflict]) simp_all
next
  assume free: "kv_lookup w (''link:'' @ shortCode_of c body) = None
            \<and> \<not> kv_throws c (KvPut (''link:'' @ shortCode_of c body))
            \<and> \<not> kv_throws c (KvGet (''urlId:'' @ req_originalUrl body))
            \<and> \<not> kv_throws c (KvPut (''urlId:'' @ req_originalUrl body))"
  then have created: "fst (shorten c body w)
                        = Inr (created_response (req_origin c @ ''/'' @ shortCode_of c body) (req_originalUrl body))"
    using shorten_succeeds [OF assms(2,3,4), of w] by simp
  then show "fst (shorten c body w)
              = Inr (JsonResponse 201
                       (JObj [(''shortUrl'', JStr (req_origin c @ ''/'' @ shortCode_of c body)),
                              (''originalUrl'', JStr (req_originalUrl body)),
                              (''success'', JBool True)]))"
    by (simp add: created_response_def)
  assume again: "(\<forall>d. JSON_stringify c d \<noteq> [])
                 \<and> \<not> kv_throws c2 (KvPut (''lock:'' @ req_originalUrl body2)) \<and> nanoid_lock c2 \<noteq> []
                 \<and> \<not> kv_throws c2 (KvGet (''link:'' @ shortCode_of c2 body2))
                 \<and> shortCode_of c2 body2 = shortCode_of c body"
  then have nonempty: "JSON_stringify c d \<noteq> []" for d
    by blast
  from again have lock2: "\<not> kv_throws c2 (KvPut (''lock:'' @ req_originalUrl body2))"
    and id2: "nanoid_lock c2 \<noteq> []"
    and get2: "\<not> kv_throws c2 (KvGet (''link:'' @ shortCode_of c2 body2))"
    and same: "shortCode_of c2 body2 = shortCode_of c body"
    by blast+
  have "status (created_response (req_origin c @ ''/'' @ shortCode_of c body) (req_originalUrl body)) = 201"
    by simp
  from shorten_201 [OF created this] obtain x where
    "map_of (URL_SHORTENER (snd (shorten c body w))) (''link:'' @ shortCode_of c body)
       = Some (JSON_stringify c
                 (make_kvData (req_originalUrl body) (expiration_of body) (description_of body) x), None)"
    by auto
  then have stored: "kv_lookup (snd (shorten c body w)) (''link:'' @ shortCode_of c2 body2)
               = Some (JSON_stringify c
                         (make_kvData (req_originalUrl body) (expiration_of body) (description_of body) x))"
    by (simp only: same kv_lookup_def option.map fst_conv)
  have "fst (shorten c2 body2 (snd (shorten c body w))) = Inr conflict_response"
    by (rule shorten_exists [OF lock2 id2 get2 stored nonempty])
  then show "fst (shorten c2 body2 (snd (shorten c body w)))
                   = Inr (JsonResponse 400
                            (JObj [(''success'', JBool False),
                                   (''message'', JStr ''Short code already exists'')]))"
    by (simp add: conflict_response_def)
qed

text \<open>
  Scenario A: the request \<^verbatim>\<open>{originalUrl: "https://example.com", shortCode: "abcd"}\<close>
  twice in a row, starting from the empty store.
\<close>

theorem shorten_conflict_witness:
  "fst (shorten (example_ctx 1000) (example_request None) empty_world)
     = Inr (JsonResponse 201
              (JObj [(''shortUrl'', JStr ''https://sho.rt/abcd''),
                     (''originalUrl'', JStr ''https://example.com''),
                     (''success'', JBool True)]))
   \<and> fst (shorten (example_ctx 2000) (example_request None)
             (snd (shorten (example_ctx 1000) (example_request None) empty_world)))
     = Inr (JsonResponse 400
              (JObj [(''success'', JBool False), (''message'', JStr ''Short code already exists'')]))"
proof -
  have h: "values_nonempty empty_world"
    "\<not> kv_throws (example_ctx 1000) (KvPut (''lock:'' @ req_originalUrl (example_request None)))"
    "nanoid_lock (example_ctx 1000) \<noteq> []"
    "\<not> kv_throws (example_ctx 1000) (KvGet (''link:'' @ shortCode_of (example_ctx 1000) (example_request None)))"
    by (simp_all add: empty_world_nonempty)
  show ?thesis
    using shorten_conflict [OF h, where ?c2.0 = "example_ctx 2000"
        and ?body2.0 = "example_request None"]
    by (simp add: example_stringify_nonempty kv_lookup_def empty_world_def)
qed




text \<open>
  Claim C4, as the code has it. On a successful create the record stored under
  \<open>link:{shortCode}\<close> carries the resolved urlId (the one stored under
  \<open>urlId:{originalUrl}\<close> after the request) and, unless the expiration is the sentinel
  \<open>-1\<close>, the requested expiration as a field. The key is put without
  \<^verbatim>\<open>expirationTtl\<close>, whatever the expiration: no TTL is applied at all, so none that
  is zero or negative either.
\<close>

theorem shorten_stores_without_ttl:
  assumes "fst (shorten c body w) = Inr r" and "status r = 201"
  shows "\<exists>x. kv_lookup (snd (shorten c body w)) (''urlId:'' @ req_originalUrl body) = Some x
           \<and> kv_lookup (snd (shorten c body w)) (''link:'' @ shortCode_of c body)
               = Some (JSON_stringify c
                         \<lparr>originalUrl = req_originalUrl body,
                          expiration = (if expiration_of body \<noteq> - 1 then Some (expiration_of body) else None),
                          description = Some (description_of body),
                          urlId = x\<rparr>)
           \<and> kv_ttl (snd (shorten c body w)) (''link:'' @ shortCode_of c body) = Some None"
proof -
  from shorten_201 [OF assms] obtain x where
    link: "map_of (URL_SHORTENER (snd (shorten c body w))) (''link:'' @ shortCode_of c body)
             = Some (JSON_stringify c
                       (make_kvData (req_originalUrl body) (expiration_of body) (description_of body) x), None)"
    and stored: "kv_lookup (snd (shorten c body w)) (''urlId:'' @ req_originalUrl body) = Some x"
    by auto
  show ?thesis
    using link stored by (intro exI [of _ x]) (simp add: kv_lookup_def kv_ttl_def make_kvData_def)
qed

text \<open>The example request with an expiration ten minutes after the epoch.\<close>

theorem shorten_stores_without_ttl_witness:
  "kv_lookup (snd (shorten (example_ctx 1000) (example_request (Some 600000)) empty_world)) ''link:abcd''
     = Some (example_stringify (example_record (Some 600000)))
   \<and> kv_ttl (snd (shorten (example_ctx 1000) (example_request (Some 600000)) empty_world)) ''link:abcd''
     = Some None"
proof -
  have first: "shorten (example_ctx 1000) (example_request (Some 600000)) empty_world =
           (Inr (created_response ''https://sho.rt/abcd'' ''https://example.com''), created_world (Some 600000))"
    by (rule first_create) simp
  have h1: "fst (shorten (example_ctx 1000) (example_request (Some 600000)) empty_world)
              = Inr (created_response ''https://sho.rt/abcd'' ''https://example.com'')"
    and h2: "status (created_response ''https://sho.rt/abcd'' ''https://example.com'') = 201"
    by (simp_all add: first)
  show ?thesis
    using shorten_stores_without_ttl [OF h1 h2]
    unfolding first snd_conv
    by (auto simp: created_world_def kv_lookup_def kv_ttl_def example_record_def)
qed

text \<open>
  Claim C4 as stated fails: the example request asks, at time 1000, for an expiration
  599 seconds ahead; the create succeeds and the key has no TTL, where the claim
  expects one of 599 seconds.
\<close>

theorem shorten_ttl_counterexample:
  "expiration_of (example_request (Some 600000)) - Date_now (example_ctx 1000) = 599000
   \<and> fst (shorten (example_ctx 1000) (example_request (Some 600000)) empty_world)
       = Inr (JsonResponse 201
                (JObj [(''shortUrl'', JStr ''https://sho.rt/abcd''),
                       (''originalUrl'', JStr ''https://example.com''),
                       (''success'', JBool True)]))
   \<and> kv_ttl (snd (shorten (example_ctx 1000) (example_request (Some 600000)) empty_world)) ''link:abcd''
       = Some None
   \<and> kv_ttl (snd (shorten (example_ctx 1000) (example_request (Some 600000)) empty_world)) ''link:abcd''
       \<noteq> Some (Some 599)"
proof -
  have first: "shorten (example_ctx 1000) (example_request (Some 600000)) empty_world =
           (Inr (created_response ''https://sho.rt/abcd'' ''https://example.com''), created_world (Some 600000))"
    by (rule first_create) simp
  show ?thesis
    by (simp add: first created_world_def kv_ttl_def created_response_def)
qed

text \<open>
  Claim C5. \<^verbatim>\<open>releaseLock\<close> never hands an exception to its caller. It leaves the
  store as it was when the value stored under \<open>lock:{url}\<close> is not the caller's token
  (another token, or no value). A key whose value differs after the call is the key
  \<open>lock:{url}\<close>, it held the caller's token before, and it is absent after. When the
  key holds the caller's token and the two store calls do not throw, the key is
  deleted and nothing else changes. When a store call of the release throws (the read,
  or the delete that follows a matching read), the store is as before and the console
  has one more line, the error \<^verbatim>\<open>Error releasing lock:\<close>; when none throws, the
  console is as before.
\<close>

theorem releaseLock_ownership:
  "fst (releaseLock c url lockId w) = Inr ()
   \<and> (kv_lookup w (''lock:'' @ url) \<noteq> Some lockId \<longrightarrow>
        URL_SHORTENER (snd (releaseLock c url lockId w)) = URL_SHORTENER w)
   \<and> (kv_lookup (snd (releaseLock c url lockId w)) key \<noteq> kv_lookup w key \<longrightarrow>
        key = ''lock:'' @ url \<and> kv_lookup w key = Some lockId
        \<and> kv_lookup (snd (releaseLock c url lockId w)) key = None)
   \<and> (kv_lookup w (''lock:'' @ url) = Some lockId
        \<and> \<not> kv_throws c (KvGet (''lock:'' @ url)) \<and> \<not> kv_throws c (KvDelete (''lock:'' @ url)) \<longrightarrow>
        snd (releaseLock c url lockId w)
          = w\<lparr>URL_SHORTENER := AList.delete (''lock:'' @ url) (URL_SHORTENER w)\<rparr>)
   \<and> (kv_throws c (KvGet (''lock:'' @ url))
        \<or> kv_lookup w (''lock:'' @ url) = Some lockId \<and> kv_throws c (KvDelete (''lock:'' @ url)) \<longrightarrow>
        URL_SHORTENER (snd (releaseLock c url lockId w)) = URL_SHORTENER w
        \<and> console (snd (releaseLock c url lockId w)) = console w @ [Error ''Error releasing lock:''])
   \<and> (\<not> kv_throws c (KvGet (''lock:'' @ url))
        \<and> (kv_lookup w (''lock:'' @ url) = Some lockId \<longrightarrow> \<not> kv_throws c (KvDelete (''lock:'' @ url))) \<longrightarrow>
        console (snd (releaseLock c url lockId w)) = console w)"
proof -
  let ?w' = "snd (releaseLock c url lockId w)"
  have 1: "fst (releaseLock c url lockId w) = Inr ()"
    by (rule releaseLock_returns)
  have 2: "kv_lookup w (''lock:'' @ url) \<noteq> Some lockId \<longrightarrow> URL_SHORTENER ?w' = URL_SHORTENER w"
    by (simp add: releaseLock_mismatch)
  have 3: "kv_lookup ?w' key \<noteq> kv_lookup w key \<longrightarrow>
        key = ''lock:'' @ url \<and> kv_lookup w key = Some lockId \<and> kv_lookup ?w' key = None"
    using releaseLock_changes [of c url lockId w key] by blast
  have 4: "kv_lookup w (''lock:'' @ url) = Some lockId
        \<and> \<not> kv_throws c (KvGet (''lock:'' @ url)) \<and> \<not> kv_throws c (KvDelete (''lock:'' @ url)) \<longrightarrow>
        ?w' = w\<lparr>URL_SHORTENER := AList.delete (''lock:'' @ url) (URL_SHORTENER w)\<rparr>"
    by (simp add: releaseLock_match)
  have 5: "kv_throws c (KvGet (''lock:'' @ url))
        \<or> kv_lookup w (''lock:'' @ url) = Some lockId \<and> kv_throws c (KvDelete (''lock:'' @ url)) \<longrightarrow>
        URL_SHORTENER ?w' = URL_SHORTENER w
        \<and> console ?w' = console w @ [Error ''Error releasing lock:'']"
    by (auto simp: releaseLock_def releaseLock_try_def kv_get_def kv_delete_def console_error_def)
  have 6: "\<not> kv_throws c (KvGet (''lock:'' @ url))
        \<and> (kv_lookup w (''lock:'' @ url) = Some lockId \<longrightarrow> \<not> kv_throws c (KvDelete (''lock:'' @ url))) \<longrightarrow>
        console ?w' = console w"
    by (auto simp: releaseLock_def releaseLock_try_def kv_get_def kv_delete_def console_error_def)
  show ?thesis
    by (intro conjI) (rule 1, rule 2, rule 3, rule 4, rule 5, rule 6)
qed

text \<open>
  The lock of the example destination: released with its token, kept with another
  token, and kept, with the error on the console, when the store throws.
\<close>

theorem releaseLock_ownership_witness:
  "fst (releaseLock (example_ctx 0) ''https://example.com'' ''lock-1'' locked_world) = Inr ()
   \<and> snd (releaseLock (example_ctx 0) ''https://example.com'' ''lock-1'' locked_world) = empty_world
   \<and> URL_SHORTENER (snd (releaseLock (example_ctx 0) ''https://example.com'' ''lock-2'' locked_world))
       = [(''lock:https://example.com'', ''lock-1'', Some 60)]
   \<and> console (snd (releaseLock (example_ctx 0) ''https://example.com'' ''lock-2'' locked_world)) = []
   \<and> fst (releaseLock (example_ctx 0\<lparr>kv_throws := \<lambda>op. True\<rparr>) ''https://example.com'' ''lock-1'' locked_world)
       = Inr ()
   \<and> URL_SHORTENER
        (snd (releaseLock (example_ctx 0\<lparr>kv_throws := \<lambda>op. True\<rparr>) ''https://example.com'' ''lock-1'' locked_world))
       = [(''lock:https://example.com'', ''lock-1'', Some 60)]
   \<and> console
        (snd (releaseLock (example_ctx 0\<lparr>kv_throws := \<lambda>op. True\<rparr>) ''https://example.com'' ''lock-1'' locked_world))
       = [Error ''Error releasing lock:'']"
proof -
  let ?url = "''https://example.com''"
  let ?faulty = "example_ctx 0\<lparr>kv_throws := \<lambda>op. True\<rparr>"
  note own = releaseLock_ownership [of "example_ctx 0" ?url "''lock-1''" locked_world "''lock:'' @ ?url"]
  note other = releaseLock_ownership [of "example_ctx 0" ?url "''lock-2''" locked_world "''lock:'' @ ?url"]
  note faulty = releaseLock_ownership [of ?faulty ?url "''lock-1''" locked_world "''lock:'' @ ?url"]
  have held: "kv_lookup locked_world (''lock:'' @ ?url) = Some ''lock-1''"
    by (simp add: locked_world_def kv_lookup_def)
  have calls: "\<not> kv_throws (example_ctx 0) (KvGet (''lock:'' @ ?url))"
    "\<not> kv_throws (example_ctx 0) (KvDelete (''lock:'' @ ?url))"
    by simp_all
  have thrown: "kv_throws ?faulty (KvGet (''lock:'' @ ?url))
                \<or> kv_lookup locked_world (''lock:'' @ ?url) = Some ''lock-1''
                    \<and> kv_throws ?faulty (KvDelete (''lock:'' @ ?url))"
    by simp
  have quiet: "\<not> kv_throws (example_ctx 0) (KvGet (''lock:'' @ ?url))
        \<and> (kv_lookup locked_world (''lock:'' @ ?url) = Some ''lock-2''
              \<longrightarrow> \<not> kv_throws (example_ctx 0) (KvDelete (''lock:'' @ ?url)))"
    by simp
  have deleted: "locked_world\<lparr>URL_SHORTENER := AList.delete (''lock:'' @ ?url) (URL_SHORTENER locked_world)\<rparr>
                   = empty_world"
    by (simp add: locked_world_def empty_world_def)
  have differs: "kv_lookup locked_world (''lock:'' @ ?url) \<noteq> Some ''lock-2''"
    by (simp add: locked_world_def kv_lookup_def)
  have fields: "URL_SHORTENER locked_world = [(''lock:https://example.com'', ''lock-1'', Some 60)]"
    "console locked_world = []"
    by (simp_all add: locked_world_def)
  have 1: "fst (releaseLock (example_ctx 0) ?url ''lock-1'' locked_world) = Inr ()"
    by (rule own [THEN conjunct1])
  have 2: "snd (releaseLock (example_ctx 0) ?url ''lock-1'' locked_world) = empty_world"
    using own [THEN conjunct2, THEN conjunct2, THEN conjunct2, THEN conjunct1, THEN mp, OF conjI [OF held conjI [OF calls]]]
    by (simp only: deleted)
  have 3: "URL_SHORTENER (snd (releaseLock (example_ctx 0) ?url ''lock-2'' locked_world))
             = [(''lock:https://example.com'', ''lock-1'', Some 60)]"
    using other [THEN conjunct2, THEN conjunct1, THEN mp, OF differs] by (simp only: fields)
  have 4: "console (snd (releaseLock (example_ctx 0) ?url ''lock-2'' locked_world)) = []"
    using other [THEN conjunct2, THEN conjunct2, THEN conjunct2, THEN conjunct2, THEN conjunct2, THEN mp, OF quiet]
    by (simp only: fields)
  have 5: "fst (releaseLock ?faulty ?url ''lock-1'' locked_world) = Inr ()"
    by (rule faulty [THEN conjunct1])
  note logged = faulty [THEN conjunct2, THEN conjunct2, THEN conjunct2, THEN conjunct2, THEN conjunct1, THEN mp, OF thrown]
  have 6: "URL_SHORTENER (snd (releaseLock ?faulty ?url ''lock-1'' locked_world))
             = [(''lock:https://example.com'', ''lock-1'', Some 60)]"
    using logged [THEN conjunct1] by (simp only: fields)
  have 7: "console (snd (releaseLock ?faulty ?url ''lock-1'' locked_world)) = [Error ''Error releasing lock:'']"
    using logged [THEN conjunct2] by (simp only: fields append_Nil)
  show ?thesis
    using 1 2 3 4 5 6 7 by (simp only: simp_thms)
qed

text \<open>
  Claim C6, evaluated. In the empty world no key has the prefix \<open>link:\<close>. The
  overview answers 200 and leaves the world as it was, so no aggregate query is sent.
  The body is \<^verbatim>\<open>{success: true, overview: {totalClicks: 0, totalLinks: 0, avgClicksPerLink: 0}, recentLinks: []}\<close>:
  the three zeros stand under \<open>overview\<close>, with a member \<open>recentLinks\<close>, and not
  under \<open>data\<close>, where the claim, the type \<^verbatim>\<open>AnalyticsOverviewResponse\<close> and the
  handler's other branch have them.
\<close>

theorem overview_empty_registry:
  "kv_list (example_ctx 1000) ''link:'' empty_world = Inr []
   \<and> overview (example_ctx 1000) empty_world
       = (JsonResponse 200
            (JObj [(''success'', JBool True),
                   (''overview'', JObj [(''totalClicks'', JNum 0), (''totalLinks'', JNum 0),
                                        (''avgClicksPerLink'', JNum 0)]),
                   (''recentLinks'', JArr [])]),
          empty_world)
   \<and> fst (overview (example_ctx 1000) empty_world)
       \<noteq> JsonResponse 200
            (JObj [(''success'', JBool True),
                   (''data'', JObj [(''totalClicks'', JNum 0), (''totalLinks'', JNum 0),
                                    (''avgClicksPerLink'', JNum 0)])])"
proof -
  have keys: "kv_list (example_ctx 1000) ''link:'' empty_world = Inr []"
    by (simp add: kv_list_def empty_world_def)
  have "overview (example_ctx 1000) empty_world
       = (JsonResponse 200
            (JObj [(''success'', JBool True),
                   (''overview'', JObj [(''totalClicks'', JNum 0), (''totalLinks'', JNum 0),
                                        (''avgClicksPerLink'', JNum 0)]),
                   (''recentLinks'', JArr [])]),
          empty_world)"
    by (rule overview_no_links) (simp_all add: empty_world_def)
  then show ?thesis
    using keys by simp
qed

text \<open>
  Claim C7, as the code has it. \<^verbatim>\<open>logAnalytics\<close> does not read the request's context.
  Every read that ends in a redirect writes one data point,
  \<^verbatim>\<open>{blobs: [urlId, shortCode], indexes: [urlId]}\<close>, whatever the \<^verbatim>\<open>cf\<close> properties of the
  request are, and whether they are there or not: the handler behaves the same
  for every value of them.
\<close>

theorem redirect_always_logs:
  assumes "fst (redirect c code w) = Inr (RedirectResponse u)"
  shows "\<exists>s d. kv_lookup w (''link:'' @ code) = Some s \<and> JSON_parse c s = Inr d \<and> u = originalUrl d
           \<and> URL_CLICK_TRACKING (snd (redirect c code w))
               = URL_CLICK_TRACKING w @ [\<lparr>blobs = [urlId d, code], indexes = [urlId d]\<rparr>]
           \<and> redirect (c\<lparr>req_cf := cf\<rparr>) code w = redirect c code w"
proof -
  from redirect_Redirect [OF assms] obtain s d where
    "kv_lookup w (''link:'' @ code) = Some s" "JSON_parse c s = Inr d" "u = originalUrl d"
    "snd (redirect c code w) = logAnalytics c code (urlId d) w"
    by blast
  then show ?thesis
    by (intro exI [of _ s] exI [of _ d]) (simp add: redirect_cf)
qed

text \<open>A read with \<^verbatim>\<open>cf\<close> properties: one data point, and the same outcome as without them.\<close>

theorem redirect_always_logs_witness:
  "URL_CLICK_TRACKING (snd (redirect (example_ctx 2000\<lparr>req_cf := Some example_cf\<rparr>) ''abcd'' (created_world None)))
     = [\<lparr>blobs = [''id-1'', ''abcd''], indexes = [''id-1'']\<rparr>]
   \<and> redirect (example_ctx 2000\<lparr>req_cf := Some example_cf\<rparr>) ''abcd'' (created_world None)
     = redirect (example_ctx 2000) ''abcd'' (created_world None)"
proof -
  let ?c = "example_ctx 2000\<lparr>req_cf := Some example_cf\<rparr>"
  have stored: "kv_lookup (created_world None) ''link:abcd'' = Some (example_stringify (example_record None))"
    by (simp add: created_world_def kv_lookup_def)
  have parse: "example_parse (example_stringify (example_record None)) = Inr (example_record None)"
    by (rule example_roundtrip) simp
  have e: "expiration (example_record None) = None"
    by (simp add: example_record_def)
  have read: "redirect ?c ''abcd'' (created_world None) =
           (Inr (RedirectResponse (originalUrl (example_record None))),
            logAnalytics ?c ''abcd'' (urlId (example_record None)) (created_world None))"
    using redirect_live [of ?c "''abcd''" "created_world None"
        "example_stringify (example_record None)" "example_record None"]
    by (simp add: stored parse e example_stringify_nonempty)
  have h: "fst (redirect ?c ''abcd'' (created_world None)) = Inr (RedirectResponse ''https://example.com'')"
    by (simp add: read example_record_def)
  have c: "?c\<lparr>req_cf := None\<rparr> = example_ctx 2000"
    by (simp add: example_ctx_def)
  from redirect_always_logs [OF h, of None] obtain s d where
    s: "kv_lookup (created_world None) (''link:'' @ ''abcd'') = Some s"
    and d: "JSON_parse ?c s = Inr d"
    and logged: "URL_CLICK_TRACKING (snd (redirect ?c ''abcd'' (created_world None)))
                   = URL_CLICK_TRACKING (created_world None) @ [\<lparr>blobs = [urlId d, ''abcd''], indexes = [urlId d]\<rparr>]"
    and same: "redirect (?c\<lparr>req_cf := None\<rparr>) ''abcd'' (created_world None)
                 = redirect ?c ''abcd'' (created_world None)"
    by blast
  have "s = example_stringify (example_record None)"
    using s stored by simp
  then have "d = example_record None"
    using d parse by simp
  then have "URL_CLICK_TRACKING (snd (redirect ?c ''abcd'' (created_world None)))
               = [\<lparr>blobs = [''id-1'', ''abcd''], indexes = [''id-1'']\<rparr>]"
    using logged by (simp add: created_world_def example_record_def)
  then show ?thesis
    using same by (simp only: c simp_thms)
qed

text \<open>
  Claim C7 as stated fails: the request has no \<^verbatim>\<open>cf\<close> properties, the read redirects,
  and a data point is written; the console gets the usual line, not a note of a skip.
\<close>

theorem redirect_skips_nothing_counterexample:
  "req_cf (example_ctx 2000) = None
   \<and> URL_CLICK_TRACKING (created_world None) = []
   \<and> fst (redirect (example_ctx 2000) ''abcd'' (created_world None))
       = Inr (RedirectResponse ''https://example.com'')
   \<and> URL_CLICK_TRACKING (snd (redirect (example_ctx 2000) ''abcd'' (created_world None)))
       = [\<lparr>blobs = [''id-1'', ''abcd''], indexes = [''id-1'']\<rparr>]
   \<and> console (snd (redirect (example_ctx 2000) ''abcd'' (created_world None)))
       = console (created_world None) @ [Log ''Analytics logged for shortCode: abcd, urlId: id-1'']"
proof -
  have stored: "kv_lookup (created_world None) ''link:abcd'' = Some (example_stringify (example_record None))"
    by (simp add: created_world_def kv_lookup_def)
  have parse: "example_parse (example_stringify (example_record None)) = Inr (example_record None)"
    by (rule example_roundtrip) simp
  have e: "expiration (example_record None) = None"
    by (simp add: example_record_def)
  have read: "redirect (example_ctx 2000) ''abcd'' (created_world None) =
           (Inr (RedirectResponse (originalUrl (example_record None))),
            logAnalytics (example_ctx 2000) ''abcd'' (urlId (example_record None)) (created_world None))"
    using redirect_live [of "example_ctx 2000" "''abcd''" "created_world None"
        "example_stringify (example_record None)" "example_record None"]
    by (simp add: stored parse e example_stringify_nonempty)
  show ?thesis
    by (simp add: read example_record_def logAnalytics_def Let_def console_log_def)
       (simp add: created_world_def)
qed

text \<open>
  Claim C8, as the code has it. With the default length the result is the four characters
  selected by the first four bytes of the entropy source, byte \<open>b\<close> selecting the character
  at index \<open>b mod 57\<close> of the alphabet: four characters, all of the alphabet of 57
  distinct characters, each determined by its own byte alone. Of the 256 byte values,
  5 select each of the first 28 characters of the alphabet and 4 select each of the
  other 29: with uniform bytes the characters are independent but not equally likely.
\<close>

theorem generateShortCode_default:
  "generateShortCode default_length e = map (\<lambda>i. characters ! (unat (e i) mod 57)) [0..<4]
   \<and> length (generateShortCode default_length e) = 4
   \<and> set (generateShortCode default_length e) \<subseteq> set characters
   \<and> length characters = 57 \<and> distinct characters
   \<and> map (\<lambda>k. length (bytes_selecting (characters ! k))) [0..<57] = replicate 28 5 @ replicate 29 4"
proof -
  have eq: "generateShortCode default_length e = map (\<lambda>i. characters ! (unat (e i) mod 57)) [0..<4]"
    by (simp add: generateShortCode_eq default_length_def)
  have "\<And>i. characters ! (unat (e i) mod 57) \<in> set characters"
    by (rule nth_mem) (simp add: length_characters)
  then have sub: "set (generateShortCode default_length e) \<subseteq> set characters"
    unfolding eq by auto
  show ?thesis
    using eq sub length_characters distinct_characters bytes_selecting_counts
    by (simp del: upt_Suc)
qed

theorem generateShortCode_default_witness:
  "generateShortCode default_length (\<lambda>i. 57) = ''AAAA''"
  using generateShortCode_default [of "\<lambda>i. 57"]
  by (simp add: characters_def upt_rec)

text \<open>
  Claim C8 as stated fails: with a uniformly distributed byte, the character A has
  probability 5/256 and the character 9 has probability 4/256 at every position.
\<close>

theorem generateShortCode_not_uniform:
  "length (bytes_selecting CHR ''A'') = 5 \<and> length (bytes_selecting CHR ''9'') = 4
   \<and> CHR ''A'' \<in> set characters \<and> CHR ''9'' \<in> set characters"
proof -
  have "length (bytes_selecting (characters ! 0)) = 5" "length (bytes_selecting (characters ! 56)) = 4"
    by (simp_all add: length_bytes_selecting)
  moreover have "CHR ''A'' \<in> set characters" "CHR ''9'' \<in> set characters"
    by (simp_all add: characters_def)
  ultimately show ?thesis
    by (simp add: first_last_character)
qed

text \<open>
  Claim C9. When the record stored under \<open>link:{shortCode}\<close> has the expiration 0 or
  none (the falsy values of the field), the read answers with the redirect to the
  record's destination at every time \<open>t\<close> of the clock, and the store is left as it was:
  the record is never treated as expired and never deleted.
\<close>

theorem redirect_falsy_expiration:
  assumes "\<not> kv_throws c (KvGet (''link:'' @ code))"
    and "kv_lookup w (''link:'' @ code) = Some s" and "s \<noteq> []" and "JSON_parse c s = Inr d"
    and "expiration d = Some 0 \<or> expiration d = None"
  shows "fst (redirect (c\<lparr>Date_now := t\<rparr>) code w) = Inr (RedirectResponse (originalUrl d))
         \<and> URL_SHORTENER (snd (redirect (c\<lparr>Date_now := t\<rparr>) code w)) = URL_SHORTENER w"
proof -
  have "redirect (c\<lparr>Date_now := t\<rparr>) code w =
          (Inr (RedirectResponse (originalUrl d)), logAnalytics (c\<lparr>Date_now := t\<rparr>) code (urlId d) w)"
    using assms by (intro redirect_live [where s = s]) auto
  then show ?thesis by simp
qed

text \<open>Records with the expiration 0 and with none, read in the year 2023.\<close>

theorem redirect_falsy_expiration_witness:
  "fst (redirect (example_ctx 1700000000000) ''abcd'' (created_world (Some 0)))
     = Inr (RedirectResponse ''https://example.com'')
   \<and> URL_SHORTENER (snd (redirect (example_ctx 1700000000000) ''abcd'' (created_world (Some 0))))
     = URL_SHORTENER (created_world (Some 0))
   \<and> fst (redirect (example_ctx 1700000000000) ''abcd'' (created_world None))
     = Inr (RedirectResponse ''https://example.com'')"
proof -
  have stored: "kv_lookup (created_world e) ''link:abcd'' = Some (example_stringify (example_record e))" for e
    by (simp add: created_world_def kv_lookup_def)
  have parse: "example_parse (example_stringify (example_record (Some 0))) = Inr (example_record (Some 0))"
    "example_parse (example_stringify (example_record None)) = Inr (example_record None)"
    by (rule example_roundtrip, simp)+
  have t: "(example_ctx 0)\<lparr>Date_now := 1700000000000\<rparr> = example_ctx 1700000000000"
    by (simp add: example_ctx_def)
  show ?thesis
    using redirect_falsy_expiration [of "example_ctx 0" "''abcd''" "created_world (Some 0)"
        "example_stringify (example_record (Some 0))" "example_record (Some 0)" 1700000000000]
      redirect_falsy_expiration [of "example_ctx 0" "''abcd''" "created_world None"
        "example_stringify (example_record None)" "example_record None" 1700000000000]
    by (simp add: stored parse t example_stringify_nonempty) (simp add: example_record_def)
qed

text \<open>
  Claim C10. The handler always returns a response, never an exception. When the
  response is the 400 of a conflict, every key other than \<open>lock:{originalUrl}\<close> holds
  what it held before the request (value and TTL): nothing is written or modified
  under \<open>link:\<close> or \<open>urlId:\<close>. On every path on which the lock was acquired (every
  response but the 429), the \<^verbatim>\<open>finally\<close> block releases it: when the two store calls
  of \<^verbatim>\<open>releaseLock\<close> do not throw, the lock key is absent after the request.
\<close>

theorem conflict_leaves_store:
  "\<exists>r. fst (shorten c body w) = Inr r
     \<and> (status r = 400 \<longrightarrow>
          r = JsonResponse 400
                (JObj [(''success'', JBool False), (''message'', JStr ''Short code already exists'')])
          \<and> (key \<noteq> ''lock:'' @ req_originalUrl body \<longrightarrow>
               map_of (URL_SHORTENER (snd (shorten c body w))) key = map_of (URL_SHORTENER w) key))
     \<and> (status r \<noteq> 429
          \<and> \<not> kv_throws c (KvGet (''lock:'' @ req_originalUrl body))
          \<and> \<not> kv_throws c (KvDelete (''lock:'' @ req_originalUrl body)) \<longrightarrow>
          kv_lookup (snd (shorten c body w)) (''lock:'' @ req_originalUrl body) = None)"
proof -
  obtain r where r: "fst (shorten c body w) = Inr r"
    using shorten_returns by blast
  have a: "r = JsonResponse 400
                (JObj [(''success'', JBool False), (''message'', JStr ''Short code already exists'')])"
    if "status r = 400"
    using shorten_400(1) [OF r that] by (simp add: conflict_response_def)
  have b: "map_of (URL_SHORTENER (snd (shorten c body w))) key = map_of (URL_SHORTENER w) key"
    if "status r = 400" and "key \<noteq> ''lock:'' @ req_originalUrl body"
    by (rule shorten_400_other_keys [OF r that])
  have c: "kv_lookup (snd (shorten c body w)) (''lock:'' @ req_originalUrl body) = None"
    if "status r \<noteq> 429 \<and> \<not> kv_throws c (KvGet (''lock:'' @ req_originalUrl body))
          \<and> \<not> kv_throws c (KvDelete (''lock:'' @ req_originalUrl body))"
    using shorten_releases [OF r] that by blast
  show ?thesis
    using r a b c by (intro exI [of _ r] conjI impI) blast+
qed

text \<open>
  The example request served in the world that already holds the short code: the
  record, the urlId and their TTLs are untouched and the lock is gone.
\<close>

theorem conflict_leaves_store_witness:
  "map_of (URL_SHORTENER (snd (shorten (example_ctx 2000) (example_request None) (created_world None))))
       ''link:abcd''
     = map_of (URL_SHORTENER (created_world None)) ''link:abcd''
   \<and> map_of (URL_SHORTENER (snd (shorten (example_ctx 2000) (example_request None) (created_world None))))
       ''urlId:https://example.com''
     = map_of (URL_SHORTENER (created_world None)) ''urlId:https://example.com''
   \<and> kv_lookup (snd (shorten (example_ctx 2000) (example_request None) (created_world None)))
       ''lock:https://example.com'' = None"
proof -
  have conflict: "fst (shorten (example_ctx 2000) (example_request None) (created_world None))
                    = Inr conflict_response"
    using shorten_exists [of "example_ctx 2000" "example_request None" "created_world None"
        "example_stringify (example_record None)"]
    by (simp add: created_world_def kv_lookup_def example_stringify_nonempty)
  show ?thesis
    using conflict_leaves_store [of "example_ctx 2000" "example_request None" "created_world None"
        "''link:abcd''"]
      conflict_leaves_store [of "example_ctx 2000" "example_request None" "created_world None"
        "''urlId:https://example.com''"]
    by (auto simp: conflict)
qed

end
